theory Spec2Isabelle
  imports Main "HOL-Library.Word"
begin

unbundle bit_operations_syntax

section \<open>JavaScript values and errors\<close>

text \<open>
  A thrown \<^verbatim>\<open>Error\<close> is represented by its message, the only part of it the
  services read (\<^verbatim>\<open>error.message\<close>).  JavaScript strings are modelled as HOL strings:
  one \<open>char\<close> per code unit, code units below 256.
\<close>

datatype error = Error (message: string)

text \<open>
  The values that reach a token position: \<^verbatim>\<open>undefined\<close>, \<^verbatim>\<open>null\<close>, a string, or
  the response object of the OAuth2 client, \<^verbatim>\<open>{ token: ... }\<close>, whose \<^verbatim>\<open>token\<close>
  field may be missing (or \<^verbatim>\<open>null\<close>, which the code does not tell apart).
\<close>

datatype jsval = Undefined | Null | Str string | Obj "string option"

fun truthy :: "jsval \<Rightarrow> bool" where
  "truthy Undefined = False"
| "truthy Null = False"
| "truthy (Str s) = (s \<noteq> [])"
| "truthy (Obj t) = True"

text \<open>Reading the property \<^verbatim>\<open>.token\<close>; on \<^verbatim>\<open>undefined\<close> and \<^verbatim>\<open>null\<close> it is
  never evaluated (the read is guarded by \<^verbatim>\<open>&&\<close>).\<close>

fun token_of :: "jsval \<Rightarrow> jsval" where
  "token_of (Obj (Some s)) = Str s"
| "token_of (Obj None) = Undefined"
| "token_of (Str s) = Undefined"
| "token_of Null = Undefined"
| "token_of Undefined = Undefined"

text \<open>Strict equality \<^verbatim>\<open>===\<close>: strings by content, a response object is
  identical to no stored value.\<close>

fun strict_eq :: "jsval \<Rightarrow> jsval \<Rightarrow> bool" where
  "strict_eq Undefined Undefined = True"
| "strict_eq Null Null = True"
| "strict_eq (Str a) (Str b) = (a = b)"
| "strict_eq _ _ = False"

text \<open>String conversion as done by \<^verbatim>\<open>'...' + v\<close>.\<close>

fun to_string :: "jsval \<Rightarrow> string" where
  "to_string Undefined = ''undefined''"
| "to_string Null = ''null''"
| "to_string (Str s) = s"
| "to_string (Obj t) = ''[object Object]''"

section \<open>XOAUTH2 credential string (imap.js)\<close>

type_synonym byte = "8 word"

text \<open>\<^verbatim>\<open>Array.prototype.join\<close> on an array of strings.\<close>

fun join :: "string \<Rightarrow> string list \<Rightarrow> string" where
  "join sep [] = []"
| "join sep [x] = x"
| "join sep (x # y # ys) = x @ sep @ join sep (y # ys)"

text \<open>\<^verbatim>\<open>Buffer.from(str)\<close>: the UTF-8 encoding; a code unit below 128 is one byte,
  one from 128 to 255 is two.\<close>

fun utf8 :: "string \<Rightarrow> byte list" where
  "utf8 [] = []"
| "utf8 (c # cs) =
     (if (of_char c :: nat) < 128 then [of_char c]
      else [192 OR drop_bit 6 (of_char c), 128 OR (of_char c AND 63)]) @ utf8 cs"

text \<open>\<^verbatim>\<open>buf.toString('base64')\<close>: the standard alphabet, padded with \<open>=\<close>.\<close>

definition base64_alphabet :: string where
  "base64_alphabet = ''ABCDEFGHIJKLMNOPQRSTUVWXYZabcdefghijklmnopqrstuvwxyz0123456789+/''"

definition sextet :: "byte \<Rightarrow> char" where
  "sextet w = base64_alphabet ! unat (w AND 63)"

fun base64 :: "byte list \<Rightarrow> string" where
  "base64 (a # b # c # rest) =
     [sextet (drop_bit 2 a),
      sextet (push_bit 4 (a AND 3) OR drop_bit 4 b),
      sextet (push_bit 2 (b AND 15) OR drop_bit 6 c),
      sextet (c AND 63)] @ base64 rest"
| "base64 [a, b] =
     [sextet (drop_bit 2 a),
      sextet (push_bit 4 (a AND 3) OR drop_bit 4 b),
      sextet (push_bit 2 (b AND 15)),
      CHR ''='']"
| "base64 [a] =
     [sextet (drop_bit 2 a), sextet (push_bit 4 (a AND 3)), CHR ''='', CHR ''='']"
| "base64 [] = []"

text \<open>The position of a character in a string.\<close>

fun index_of :: "char \<Rightarrow> string \<Rightarrow> nat option" where
  "index_of c [] = None"
| "index_of c (x # xs) = (if c = x then Some 0 else map_option Suc (index_of c xs))"

text \<open>
  The decoding that reads a base64 string back (RFC 4648): four characters give three
  bytes, and \<open>=\<close> pads the last group.  It serves to state what the encoded
  credential holds.
\<close>

definition unsextet :: "char \<Rightarrow> byte option" where
  "unsextet c = map_option of_nat (index_of c base64_alphabet)"

definition unquad :: "char \<Rightarrow> char \<Rightarrow> char \<Rightarrow> char \<Rightarrow> (byte \<times> byte \<times> byte) option" where
  "unquad p q r s =
     (case (unsextet p, unsextet q, unsextet r, unsextet s) of
        (Some s1, Some s2, Some s3, Some s4) \<Rightarrow>
          Some (push_bit 2 s1 OR drop_bit 4 s2,
                push_bit 4 (s2 AND 15) OR drop_bit 2 s3,
                push_bit 6 (s3 AND 3) OR s4)
      | _ \<Rightarrow> None)"

fun unbase64 :: "string \<Rightarrow> byte list option" where
  "unbase64 (p # q # r # s # rest) =
     (if rest = [] \<and> s = CHR ''='' then
        (if r = CHR ''='' then
           (case unquad p q CHR ''A'' CHR ''A'' of
              Some (a, b, c) \<Rightarrow> Some [a] | None \<Rightarrow> None)
         else
           (case unquad p q r CHR ''A'' of
              Some (a, b, c) \<Rightarrow> Some [a, b] | None \<Rightarrow> None))
      else
        (case unquad p q r s of
           None \<Rightarrow> None
         | Some (a, b, c) \<Rightarrow>
             (case unbase64 rest of None \<Rightarrow> None | Some bs \<Rightarrow> Some (a # b # c # bs))))"
| "unbase64 [] = Some []"
| "unbase64 _ = None"

definition SOH :: char where
  "SOH = char_of (1 :: nat)"

definition buildXOAuth2Token :: "string \<Rightarrow> jsval \<Rightarrow> string" where
  "buildXOAuth2Token email accessToken =
     (let authString =
            join [SOH] [''user='' @ email, ''auth=Bearer '' @ to_string accessToken, [], []]
      in base64 (utf8 authString))"

section \<open>HTML to text (imap.js)\<close>

text \<open>The characters matched by \<^verbatim>\<open>\s\<close> and removed by \<^verbatim>\<open>trim\<close>: tab, line feed,
  vertical tab, form feed, carriage return, space, no-break space.\<close>

definition is_space :: "char \<Rightarrow> bool" where
  "is_space c = ((of_char c :: nat) \<in> {9, 10, 11, 12, 13, 32, 160})"

text \<open>The line terminators, which \<^verbatim>\<open>.\<close> does not match.\<close>

definition is_line_terminator :: "char \<Rightarrow> bool" where
  "is_line_terminator c = ((of_char c :: nat) \<in> {10, 13})"

definition starts_with :: "string \<Rightarrow> string \<Rightarrow> bool" where
  "starts_with p s = (take (length p) s = p)"

text \<open>The largest offset at which \<open>p\<close> occurs in \<open>s\<close>.\<close>

fun last_occurrence :: "string \<Rightarrow> string \<Rightarrow> nat option" where
  "last_occurrence p [] = (if p = [] then Some 0 else None)"
| "last_occurrence p (c # cs) =
     (case last_occurrence p cs of
        Some k \<Rightarrow> Some (Suc k)
      | None \<Rightarrow> if starts_with p (c # cs) then Some 0 else None)"

text \<open>
  Length of the match of \<^verbatim>\<open><tag[^>]*>.*</tag>\<close> at the start of \<open>s\<close>, if any:
  the opening literal, everything up to the first \<open>>\<close>, then the longest stretch of
  the same line that is followed by the closing literal.
\<close>

definition match_block :: "string \<Rightarrow> string \<Rightarrow> string \<Rightarrow> nat option" where
  "match_block opn cls s =
     (if starts_with opn s then
        (let s1 = drop (length opn) s;
             attrs = takeWhile (\<lambda>c. c \<noteq> CHR ''>'') s1
         in case dropWhile (\<lambda>c. c \<noteq> CHR ''>'') s1 of
              [] \<Rightarrow> None
            | _ # s2 \<Rightarrow>
                (case last_occurrence cls (takeWhile (\<lambda>c. \<not> is_line_terminator c) s2) of
                   None \<Rightarrow> None
                 | Some k \<Rightarrow> Some (length opn + length attrs + 1 + k + length cls)))
      else None)"

text \<open>Length of the match of \<^verbatim>\<open><[^>]+>\<close> at the start of \<open>s\<close>, if any.\<close>

definition match_tag :: "string \<Rightarrow> nat option" where
  "match_tag s =
     (case s of
        [] \<Rightarrow> None
      | c # s1 \<Rightarrow>
          if c \<noteq> CHR ''<'' then None
          else (let inner = takeWhile (\<lambda>c. c \<noteq> CHR ''>'') s1
                in if inner = [] \<or> dropWhile (\<lambda>c. c \<noteq> CHR ''>'') s1 = [] then None
                   else Some (length inner + 2)))"

text \<open>
  \<^verbatim>\<open>str.replace(/re/g, rep)\<close> for a pattern whose matches are never empty: scan from
  the left; at a match, emit the replacement and skip the match.  \<open>skip\<close> counts the
  characters of the current match still to pass over.
\<close>

fun replace_all :: "(string \<Rightarrow> nat option) \<Rightarrow> string \<Rightarrow> nat \<Rightarrow> string \<Rightarrow> string" where
  "replace_all m rep skip [] = []"
| "replace_all m rep (Suc skip) (c # cs) = replace_all m rep skip cs"
| "replace_all m rep 0 (c # cs) =
     (case m (c # cs) of
        Some (Suc n) \<Rightarrow> rep @ replace_all m rep n cs
      | _ \<Rightarrow> c # replace_all m rep 0 cs)"

text \<open>\<^verbatim>\<open>.replace(/\s+/g, " ")\<close>: each maximal run of white space becomes one space;
  \<open>in_run\<close> tells that the previous character was white space.\<close>

fun collapse_spaces :: "bool \<Rightarrow> string \<Rightarrow> string" where
  "collapse_spaces in_run [] = []"
| "collapse_spaces in_run (c # cs) =
     (if is_space c then
        (if in_run then collapse_spaces True cs else CHR '' '' # collapse_spaces True cs)
      else c # collapse_spaces False cs)"

definition trim :: "string \<Rightarrow> string" where
  "trim s = rev (dropWhile is_space (rev (dropWhile is_space s)))"

definition htmlToText :: "string option \<Rightarrow> string" where
  "htmlToText html =
     (case html of
        None \<Rightarrow> []
      | Some h \<Rightarrow>
          if h = [] then []
          else trim (collapse_spaces False
                 (replace_all match_tag '' '' 0
                   (replace_all (match_block ''<script'' ''</script>'') [] 0
                     (replace_all (match_block ''<style'' ''</style>'') [] 0 h)))))"

section \<open>Data model\<close>

text \<open>A row of the \<^verbatim>\<open>User\<close> model (models/user.js); the token columns are nullable.\<close>

record user =
  user_id :: int
  user_email :: string
  user_accessToken :: jsval
  user_refreshToken :: jsval

text \<open>A \<^verbatim>\<open>Date\<close> is kept symbolically: the current time, or the date parsed from a
  header string.\<close>

datatype jsdate = Now | DateOf string

text \<open>The object built for each message by \<^verbatim>\<open>fetchEmails\<close>; \<open>from_addr\<close> is its
  field \<^verbatim>\<open>from\<close>, and \<open>hasAttachments\<close> can be \<^verbatim>\<open>undefined\<close>.\<close>

record emailData =
  messageId :: int
  from_addr :: string
  subject :: string
  date :: jsdate
  body :: string
  bodyHtml :: string
  hasAttachments :: "bool option"

text \<open>A row of the \<^verbatim>\<open>Email\<close> model (models/email.js), unique on
  \<^verbatim>\<open>(userId, messageId)\<close>.\<close>

record email_row = emailData +
  userId :: int

text \<open>What imap-simple delivers for a message: parts with a \<^verbatim>\<open>which\<close> tag and a body
  (a parsed header object, or raw text), and the attributes with the uid.\<close>

record headers =
  hdr_from :: "string list option"
  hdr_subject :: "string list option"
  hdr_date :: "string list option"

datatype bodyval = NoBody | Raw string | Headers headers

record part =
  which :: string
  part_body :: bodyval

record msg_attributes =
  uid :: int

record message =
  parts :: "part list option"
  attributes :: "msg_attributes option"

text \<open>The result of mailparser's \<^verbatim>\<open>simpleParser\<close>.\<close>

record parsed =
  parsed_text :: "string option"
  parsed_html :: "string option"
  parsed_attachments :: "string list option"

record imap_config =
  cfg_user :: string
  cfg_xoauth2 :: string
  cfg_host :: string
  cfg_port :: nat
  cfg_tls :: bool
  cfg_authTimeout :: nat
  cfg_rejectUnauthorized :: bool
  cfg_minVersion :: string
  cfg_connTimeout :: nat
  cfg_keepalive :: "nat \<times> nat \<times> bool"

record fetch_options =
  bodies :: "string list"
  struct :: bool
  markSeen :: bool

text \<open>A \<^verbatim>\<open>where\<close> clause as built by \<^verbatim>\<open>getStoredEmails\<close>.\<close>

datatype cond =
    UserIdIs int
  | Like string string
  | AndC "cond list"
  | OrC "cond list"

section \<open>Effects\<close>

datatype level = Info | Warn | Err

text \<open>A number that a division can produce.\<close>

datatype jsnum = Num int | Infinity | NaN

datatype logval = S string | N int | Q jsnum

text \<open>Every call that leaves the process, and every log line, in the order made;
  \<open>ImapConnected\<close> records that \<^verbatim>\<open>imaps.connect\<close> has delivered a connection.\<close>

datatype event =
    Log level string "(string \<times> logval) list"
  | UserFindOne string
  | UserUpdate int jsval
  | SetCredentials jsval jsval
  | GetAccessToken
  | ImapConnect imap_config
  | ImapConnected
  | ImapOpenBox string
  | ImapSearch "string list" fetch_options
  | ImapEnd
  | EmailFindOrCreate int int
  | EmailCount cond
  | EmailFindAll cond string "nat list" int int

text \<open>An open IMAP connection, as the server behind it answers.\<close>

record connection =
  openBox :: "string \<Rightarrow> error option"
  conn_search :: "string list \<Rightarrow> fetch_options \<Rightarrow> error + message list"
  end_conn :: "error option"

text \<open>
  The collaborators outside the repository: the OAuth2 client, the IMAP library, the
  MIME parser and the database engine.  \<open>dbFault\<close> says, from the history so far,
  whether a database call is rejected; \<open>dbLike\<close> and \<open>dbOrder\<close> are the engine's
  \<^verbatim>\<open>LIKE\<close> and \<^verbatim>\<open>ORDER BY\<close> (the direction comes as the code units that
  \<^verbatim>\<open>toUpperCase\<close> gives).
\<close>

record env =
  production :: bool
  getAccessToken :: "jsval \<Rightarrow> jsval \<Rightarrow> error + jsval"
  imapConnect :: "imap_config \<Rightarrow> error + connection"
  simpleParser :: "bodyval \<Rightarrow> error + parsed"
  dbFault :: "event list \<Rightarrow> event \<Rightarrow> error option"
  dbLike :: "string \<Rightarrow> string \<Rightarrow> bool"
  dbOrder :: "string \<Rightarrow> nat list \<Rightarrow> email_row list \<Rightarrow> error + email_row list"

record state =
  userTable :: "user list"
  emailTable :: "email_row list"
  trace :: "event list"

definition emit :: "event \<Rightarrow> state \<Rightarrow> state" where
  "emit ev st = st\<lparr>trace := trace st @ [ev]\<rparr>"

section \<open>Database calls (Sequelize models)\<close>

definition User_findOne :: "env \<Rightarrow> string \<Rightarrow> state \<Rightarrow> (error + user option) \<times> state" where
  "User_findOne env addr st =
     (case dbFault env (trace st) (UserFindOne addr) of
        Some e \<Rightarrow> (Inl e, emit (UserFindOne addr) st)
      | None \<Rightarrow> (Inr (find (\<lambda>u. user_email u = addr) (userTable st)), emit (UserFindOne addr) st))"

definition User_update :: "env \<Rightarrow> user \<Rightarrow> jsval \<Rightarrow> state \<Rightarrow> (error + user) \<times> state" where
  "User_update env usr v st =
     (case dbFault env (trace st) (UserUpdate (user_id usr) v) of
        Some e \<Rightarrow> (Inl e, emit (UserUpdate (user_id usr) v) st)
      | None \<Rightarrow>
          (Inr (usr\<lparr>user_accessToken := v\<rparr>),
           emit (UserUpdate (user_id usr) v)
             (st\<lparr>userTable :=
                   map (\<lambda>u. if user_id u = user_id usr then u\<lparr>user_accessToken := v\<rparr> else u)
                     (userTable st)\<rparr>)))"

text \<open>The row created from \<^verbatim>\<open>{ ...email, userId }\<close>: an undefined
  \<^verbatim>\<open>hasAttachments\<close> takes the column default \<^verbatim>\<open>false\<close>.\<close>

definition new_row :: "emailData \<Rightarrow> int \<Rightarrow> email_row" where
  "new_row e owner =
     \<lparr>messageId = messageId e, from_addr = from_addr e, subject = subject e, date = date e,
      body = body e, bodyHtml = bodyHtml e,
      hasAttachments = Some (case hasAttachments e of None \<Rightarrow> False | Some b \<Rightarrow> b),
      userId = owner\<rparr>"

text \<open>\<^verbatim>\<open>Email.findOrCreate({ where: { userId, messageId }, defaults })\<close>: the stored
  row and \<open>False\<close> when the key exists, else the row created and \<open>True\<close>.\<close>

definition Email_findOrCreate ::
  "env \<Rightarrow> int \<Rightarrow> emailData \<Rightarrow> state \<Rightarrow> (error + email_row \<times> bool) \<times> state" where
  "Email_findOrCreate env owner e st =
     (let ev = EmailFindOrCreate owner (messageId e) in
      case dbFault env (trace st) ev of
        Some err \<Rightarrow> (Inl err, emit ev st)
      | None \<Rightarrow>
          (case find (\<lambda>r. userId r = owner \<and> messageId r = messageId e) (emailTable st) of
             Some r \<Rightarrow> (Inr (r, False), emit ev st)
           | None \<Rightarrow>
               (Inr (new_row e owner, True),
                emit ev (st\<lparr>emailTable := emailTable st @ [new_row e owner]\<rparr>))))"

section \<open>Token refresh (services/auth.js)\<close>

definition refresh_failed :: "user \<Rightarrow> error \<Rightarrow> state \<Rightarrow> (error + jsval) \<times> state" where
  "refresh_failed usr e st =
     (Inl (Error (''Failed to refresh access token: '' @ message e)),
      emit (Log Err ''Token refresh error''
              [(''email'', S (user_email usr)), (''error'', S (message e))]) st)"

definition refreshAccessToken :: "env \<Rightarrow> user \<Rightarrow> state \<Rightarrow> (error + jsval) \<times> state" where
  "refreshAccessToken env usr st =
     (if \<not> truthy (user_refreshToken usr) then
        (Inl (Error ''No refresh token available; re-authentication required''), st)
      else
        (let st1 = emit (Log Info ''Refreshing access token'' [(''email'', S (user_email usr))]) st;
             st2 = emit (SetCredentials (user_accessToken usr) (user_refreshToken usr)) st1;
             st3 = emit GetAccessToken st2
         in case getAccessToken env (user_accessToken usr) (user_refreshToken usr) of
              Inl e \<Rightarrow> refresh_failed usr e st3
            | Inr tokenResponse \<Rightarrow>
                (let freshAccessToken =
                       (if truthy tokenResponse \<and> truthy (token_of tokenResponse)
                        then token_of tokenResponse else tokenResponse);
                     st4 = emit (Log Info ''Token refreshed successfully''
                                   [(''email'', S (user_email usr))]) st3
                 in if \<not> truthy freshAccessToken then
                      refresh_failed usr (Error ''Unable to obtain access token'') st4
                    else if \<not> strict_eq freshAccessToken (user_accessToken usr) then
                      (case User_update env usr freshAccessToken
                              (emit (Log Info ''Persisting new access token''
                                       [(''email'', S (user_email usr))]) st4) of
                         (Inl e, st5) \<Rightarrow> refresh_failed usr e st5
                       | (Inr u, st5) \<Rightarrow> (Inr freshAccessToken, st5))
                    else (Inr freshAccessToken, st4))))"

section \<open>Reading the mailbox (services/imap.js)\<close>

text \<open>Decimal digits of a number, as a template string prints it.\<close>

fun show_nat :: "nat \<Rightarrow> string" where
  "show_nat n =
     (if n < 10 then [char_of (48 + n)] else show_nat (n div 10) @ [char_of (48 + n mod 10)])"

declare show_nat.simps [simp del]

text \<open>\<^verbatim>\<open>xs.slice(0, n)\<close>: a negative \<open>n\<close> counts from the end.\<close>

definition slice0 :: "'a list \<Rightarrow> int \<Rightarrow> 'a list" where
  "slice0 xs n = (if n < 0 then take (nat (int (length xs) + n)) xs else take (nat n) xs)"

fun body_truthy :: "bodyval \<Rightarrow> bool" where
  "body_truthy NoBody = False"
| "body_truthy (Raw s) = (s \<noteq> [])"
| "body_truthy (Headers h) = True"

text \<open>\<^verbatim>\<open>v?.[0] || ""\<close> for a header field.\<close>

definition header_first :: "string list option \<Rightarrow> string" where
  "header_first v = (case v of Some (x # _) \<Rightarrow> x | _ \<Rightarrow> [])"

definition parse_headers :: "part option \<Rightarrow> emailData \<Rightarrow> emailData" where
  "parse_headers header ed =
     (case header of
        None \<Rightarrow> ed
      | Some h \<Rightarrow>
          (case part_body h of
             NoBody \<Rightarrow> ed
           | Raw s \<Rightarrow> if s = [] then ed else ed\<lparr>from_addr := [], subject := [], date := Now\<rparr>
           | Headers hs \<Rightarrow>
               ed\<lparr>from_addr := header_first (hdr_from hs),
                  subject := header_first (hdr_subject hs),
                  date := (if header_first (hdr_date hs) \<noteq> []
                           then DateOf (header_first (hdr_date hs)) else Now)\<rparr>))"

text \<open>The inner \<^verbatim>\<open>try\<close>: a failure of \<^verbatim>\<open>simpleParser\<close> is logged as a warning and
  the record is left as the headers made it.\<close>

definition parse_body :: "env \<Rightarrow> part option \<Rightarrow> emailData \<Rightarrow> emailData \<times> event list" where
  "parse_body env all ed =
     (case all of
        None \<Rightarrow> (ed, [])
      | Some a \<Rightarrow>
          if \<not> body_truthy (part_body a) then (ed, [])
          else
            (case simpleParser env (part_body a) of
               Inl parseErr \<Rightarrow>
                 (ed, [Log Warn ''Failed to parse email body''
                         [(''messageId'', N (messageId ed)), (''error'', S (message parseErr))]])
             | Inr p \<Rightarrow>
                 (let txt = (case parsed_text p of None \<Rightarrow> [] | Some t \<Rightarrow> t);
                      htm = (case parsed_html p of None \<Rightarrow> [] | Some h \<Rightarrow> h);
                      ed1 = (if txt \<noteq> [] then ed\<lparr>body := take 5000 txt\<rparr>
                             else if htm \<noteq> [] then
                               ed\<lparr>body := take 5000 (htmlToText (parsed_html p))\<rparr>
                             else ed);
                      ed2 = (if htm \<noteq> [] then ed1\<lparr>bodyHtml := take 10000 htm\<rparr> else ed1)
                  in (ed2\<lparr>hasAttachments :=
                            (case parsed_attachments p of
                               None \<Rightarrow> None
                             | Some atts \<Rightarrow> Some (0 < length atts))\<rparr>, []))))"

text \<open>The outer \<^verbatim>\<open>catch\<close> of the per-message callback: it logs the uid and yields
  \<^verbatim>\<open>null\<close>; without attributes the log line itself throws and the callback rejects.\<close>

definition catch_message :: "message \<Rightarrow> error \<Rightarrow> (error + emailData option) \<times> event list" where
  "catch_message m err =
     (case attributes m of
        None \<Rightarrow> (Inl (Error ''Cannot read properties of undefined (reading 'uid')''), [])
      | Some a \<Rightarrow>
          (Inr None,
           [Log Err ''Error processing individual email''
              [(''messageId'', N (uid a)), (''error'', S (message err))]]))"

definition processMessage :: "env \<Rightarrow> message \<Rightarrow> (error + emailData option) \<times> event list" where
  "processMessage env m =
     (case parts m of
        None \<Rightarrow> catch_message m (Error ''Cannot read properties of undefined (reading 'find')'')
      | Some ps \<Rightarrow>
          (case attributes m of
             None \<Rightarrow> catch_message m (Error ''Cannot read properties of undefined (reading 'uid')'')
           | Some a \<Rightarrow>
               (let all = find (\<lambda>p. which p = []) ps;
                    header = find (\<lambda>p. which p = ''HEADER'') ps;
                    emailData0 =
                      \<lparr>messageId = uid a, from_addr = [], subject = [], date = Now,
                       body = [], bodyHtml = [], hasAttachments = Some False\<rparr>
                in case parse_body env all (parse_headers header emailData0) of
                     (ed, logs) \<Rightarrow> (Inr (Some ed), logs))))"

definition imap_config_of :: "env \<Rightarrow> string \<Rightarrow> string \<Rightarrow> imap_config" where
  "imap_config_of env emailAddress xoauth2token =
     \<lparr>cfg_user = emailAddress, cfg_xoauth2 = xoauth2token, cfg_host = ''imap.gmail.com'',
      cfg_port = 993, cfg_tls = True, cfg_authTimeout = 30000,
      cfg_rejectUnauthorized = production env, cfg_minVersion = ''TLSv1.2'',
      cfg_connTimeout = 10000, cfg_keepalive = (10000, 300000, True)\<rparr>"

definition fetchOptions :: fetch_options where
  "fetchOptions = \<lparr>bodies = [''HEADER'', ''TEXT'', []], struct = True, markSeen = False\<rparr>"

text \<open>The \<^verbatim>\<open>catch\<close> of \<^verbatim>\<open>fetchEmails\<close>: close the connection if there is one, log,
  rethrow.  (The logged stack is not kept.)\<close>

definition imap_failed ::
  "connection option \<Rightarrow> string \<Rightarrow> error \<Rightarrow> state \<Rightarrow> (error + emailData list) \<times> state" where
  "imap_failed conn emailAddress e st =
     (let st1 =
            (case conn of
               None \<Rightarrow> st
             | Some c \<Rightarrow>
                 (case end_conn c of
                    None \<Rightarrow> emit ImapEnd st
                  | Some closeErr \<Rightarrow>
                      emit (Log Err ''Error closing IMAP connection''
                              [(''error'', S (message closeErr))]) (emit ImapEnd st)))
      in (Inl e,
          emit (Log Err ''IMAP fetch error''
                  [(''email'', S emailAddress), (''error'', S (message e))]) st1))"

text \<open>The first rejected callback, which is what \<^verbatim>\<open>Promise.all\<close> rejects with.\<close>

fun first_rejection :: "(error + 'a) list \<Rightarrow> error option" where
  "first_rejection [] = None"
| "first_rejection (Inl e # rs) = Some e"
| "first_rejection (Inr v # rs) = first_rejection rs"

text \<open>
  \<^verbatim>\<open>fetchEmails(accessToken, emailAddress, limit = 50)\<close>.  The per-message callbacks
  are run one after the other, in the order of the list; their log lines are appended
  in that order.
\<close>

definition fetchEmails ::
  "env \<Rightarrow> jsval \<Rightarrow> string \<Rightarrow> int option \<Rightarrow> state \<Rightarrow> (error + emailData list) \<times> state" where
  "fetchEmails env accessToken emailAddress limit_opt st =
     (let limit = (case limit_opt of None \<Rightarrow> 50 | Some l \<Rightarrow> l);
          config = imap_config_of env emailAddress (buildXOAuth2Token emailAddress accessToken);
          st1 = emit (ImapConnect config)
                  (emit (Log Info ''Connecting to Gmail IMAP'' [(''email'', S emailAddress)]) st)
      in case imapConnect env config of
           Inl e \<Rightarrow> imap_failed None emailAddress e st1
         | Inr conn \<Rightarrow>
             (let st2 = emit (ImapOpenBox ''INBOX'') (emit ImapConnected st1)
              in case openBox conn ''INBOX'' of
                   Some e \<Rightarrow> imap_failed (Some conn) emailAddress e st2
                 | None \<Rightarrow>
                     (let st3 = emit (ImapSearch [''ALL''] fetchOptions)
                                  (emit (Log Info ''Successfully connected to Gmail IMAP''
                                           [(''email'', S emailAddress)]) st2)
                      in case conn_search conn [''ALL''] fetchOptions of
                           Inl e \<Rightarrow> imap_failed (Some conn) emailAddress e st3
                         | Inr messages \<Rightarrow>
                             (let limitedMessages = slice0 messages limit;
                                  st4 = emit (Log Info
                                                (''Fetched '' @ show_nat (length limitedMessages)
                                                  @ '' emails from IMAP'')
                                                [(''email'', S emailAddress),
                                                 (''total'', N (int (length messages))),
                                                 (''limited'', N (int (length limitedMessages)))])
                                          st3;
                                  results = map (processMessage env) limitedMessages;
                                  st5 = st4\<lparr>trace := trace st4 @ concat (map snd results)\<rparr>
                              in case first_rejection (map fst results) of
                                   Some e \<Rightarrow> imap_failed (Some conn) emailAddress e st5
                                 | None \<Rightarrow>
                                     (let emails =
                                            List.map_filter
                                              (\<lambda>r. case r of Inl _ \<Rightarrow> None | Inr v \<Rightarrow> v)
                                              (map fst results);
                                          st6 = emit ImapEnd st5
                                      in case end_conn conn of
                                           Some e \<Rightarrow> imap_failed (Some conn) emailAddress e st6
                                         | None \<Rightarrow>
                                             (Inr emails,
                                              emit (Log Info
                                                      (''Successfully processed ''
                                                        @ show_nat (length emails) @ '' emails'')
                                                      [(''email'', S emailAddress)]) st6))))))"

section \<open>Cache merge and synchronisation (services/email.js)\<close>

text \<open>The loop of \<^verbatim>\<open>saveEmailsToDatabase\<close> with its two counters; it stops at the
  first call that throws.\<close>

fun save_loop ::
  "env \<Rightarrow> emailData list \<Rightarrow> int \<Rightarrow> nat \<times> nat \<Rightarrow> state \<Rightarrow> (error + nat \<times> nat) \<times> state" where
  "save_loop env [] owner counts st = (Inr counts, st)"
| "save_loop env (e # es) owner (savedCount, skippedCount) st =
     (case Email_findOrCreate env owner e st of
        (Inl err, st1) \<Rightarrow> (Inl err, st1)
      | (Inr (inst, created), st1) \<Rightarrow>
          save_loop env es owner
            (if created then (Suc savedCount, skippedCount) else (savedCount, Suc skippedCount))
            st1)"

text \<open>\<^verbatim>\<open>saveEmailsToDatabase\<close> returns nothing: its counts go to the log, and so does
  an error, which is not rethrown.\<close>

definition saveEmailsToDatabase :: "env \<Rightarrow> emailData list \<Rightarrow> int \<Rightarrow> state \<Rightarrow> state" where
  "saveEmailsToDatabase env emails owner st =
     (case save_loop env emails owner (0, 0) st of
        (Inr (savedCount, skippedCount), st1) \<Rightarrow>
          emit (Log Info ''Saved emails to database''
                  [(''userId'', N owner), (''total'', N (int (length emails))),
                   (''saved'', N (int savedCount)), (''skipped'', N (int skippedCount))]) st1
      | (Inl err, st1) \<Rightarrow>
          emit (Log Err ''Error saving emails to database''
                  [(''userId'', N owner), (''error'', S (message err))]) st1)"

definition fetch_failed ::
  "string \<Rightarrow> error \<Rightarrow> state \<Rightarrow> (error + emailData list) \<times> state" where
  "fetch_failed emailAddress e st =
     (Inl (Error (''Failed to fetch emails: '' @ message e)),
      emit (Log Err ''Error fetching emails''
              [(''email'', S emailAddress), (''error'', S (message e))]) st)"

definition fetchUserEmails ::
  "env \<Rightarrow> string \<Rightarrow> state \<Rightarrow> (error + emailData list) \<times> state" where
  "fetchUserEmails env emailAddress st =
     (if emailAddress = [] then (Inl (Error ''Email address is required''), st)
      else
        (case User_findOne env emailAddress st of
           (Inl e, st1) \<Rightarrow> (Inl e, st1)
         | (Inr None, st1) \<Rightarrow> (Inl (Error ''User not found''), st1)
         | (Inr (Some usr), st1) \<Rightarrow>
             (case refreshAccessToken env usr st1 of
                (Inl e, st2) \<Rightarrow> fetch_failed emailAddress e st2
              | (Inr freshAccessToken, st2) \<Rightarrow>
                  (case fetchEmails env freshAccessToken emailAddress None
                          (emit (Log Info ''Fetching emails from IMAP''
                                   [(''email'', S emailAddress)]) st2) of
                     (Inl e, st3) \<Rightarrow> fetch_failed emailAddress e st3
                   | (Inr emails, st3) \<Rightarrow>
                       (Inr emails,
                        saveEmailsToDatabase env emails (user_id usr)
                          (emit (Log Info ''Successfully fetched emails''
                                   [(''email'', S emailAddress),
                                    (''count'', N (int (length emails)))]) st3))))))"

section \<open>Reading the cache (services/email.js)\<close>

record query_options =
  opt_page :: "int option"
  opt_limit :: "int option"
  opt_search :: "string option"
  opt_sortBy :: "string option"
  opt_sortOrder :: "string option"

record pagination =
  currentPage :: int
  totalPages :: jsnum
  totalCount :: nat
  page_limit :: int
  hasNextPage :: bool
  hasPrevPage :: bool

record stored_emails =
  emails :: "email_row list"
  pagination :: pagination

definition column :: "string \<Rightarrow> email_row \<Rightarrow> string option" where
  "column name r =
     (if name = ''from'' then Some (from_addr r)
      else if name = ''subject'' then Some (subject r)
      else None)"

fun eval_cond :: "(string \<Rightarrow> string \<Rightarrow> bool) \<Rightarrow> cond \<Rightarrow> email_row \<Rightarrow> bool" where
  "eval_cond lk (UserIdIs u) r = (userId r = u)"
| "eval_cond lk (Like name pat) r = (case column name r of None \<Rightarrow> False | Some v \<Rightarrow> lk pat v)"
| "eval_cond lk (AndC cs) r = list_all (\<lambda>c. eval_cond lk c r) cs"
| "eval_cond lk (OrC cs) r = list_ex (\<lambda>c. eval_cond lk c r) cs"

definition Email_count :: "env \<Rightarrow> cond \<Rightarrow> state \<Rightarrow> (error + nat) \<times> state" where
  "Email_count env w st =
     (case dbFault env (trace st) (EmailCount w) of
        Some e \<Rightarrow> (Inl e, emit (EmailCount w) st)
      | None \<Rightarrow>
          (Inr (length (filter (eval_cond (dbLike env) w) (emailTable st))),
           emit (EmailCount w) st))"

text \<open>\<^verbatim>\<open>Email.findAll({ where, order, limit, offset })\<close>; the engine rejects a
  negative \<^verbatim>\<open>LIMIT\<close> or offset.\<close>

definition Email_findAll ::
  "env \<Rightarrow> cond \<Rightarrow> string \<Rightarrow> nat list \<Rightarrow> int \<Rightarrow> int \<Rightarrow> state \<Rightarrow>
     (error + email_row list) \<times> state" where
  "Email_findAll env w sortBy sortOrder lim offset st =
     (let ev = EmailFindAll w sortBy sortOrder lim offset in
      case dbFault env (trace st) ev of
        Some e \<Rightarrow> (Inl e, emit ev st)
      | None \<Rightarrow>
          if lim < 0 \<or> offset < 0 then
            (Inl (Error ''You have an error in your SQL syntax''), emit ev st)
          else
            (case dbOrder env sortBy sortOrder
                    (filter (eval_cond (dbLike env) w) (emailTable st)) of
               Inl e \<Rightarrow> (Inl e, emit ev st)
             | Inr rows \<Rightarrow> (Inr (take (nat lim) (drop (nat offset) rows)), emit ev st)))"

text \<open>
  \<^verbatim>\<open>String.prototype.toUpperCase\<close> on a string of code units below 256.  The result is
  given as code units, since it can leave that range: the micro sign becomes the Greek
  capital mu, the sharp s becomes \<^verbatim>\<open>SS\<close>, and y with diaeresis becomes its capital at
  376; the letters \<open>a\<close> to \<open>z\<close> and those from 224 to 254, the division sign apart,
  move down by 32.
\<close>

definition upper_units :: "char \<Rightarrow> nat list" where
  "upper_units c =
     (let n = (of_char c :: nat) in
      if 97 \<le> n \<and> n \<le> 122 then [n - 32]
      else if n = 181 then [924]
      else if n = 223 then [83, 83]
      else if 224 \<le> n \<and> n \<le> 254 \<and> n \<noteq> 247 then [n - 32]
      else if n = 255 then [376]
      else [n])"

definition toUpperCase :: "string \<Rightarrow> nat list" where
  "toUpperCase s = concat (map upper_units s)"

text \<open>The \<^verbatim>\<open>where\<close> clause chosen from the search string.\<close>

definition whereClause :: "string \<Rightarrow> int \<Rightarrow> cond" where
  "whereClause search owner =
     (if search \<noteq> [] \<and> trim search \<noteq> [] then
        AndC [UserIdIs owner,
              OrC [Like ''from'' (''%'' @ search @ ''%''),
                   Like ''subject'' (''%'' @ search @ ''%'')]]
      else UserIdIs owner)"

text \<open>\<^verbatim>\<open>Math.ceil(totalCount / limit)\<close>.\<close>

definition ceil_div :: "nat \<Rightarrow> int \<Rightarrow> jsnum" where
  "ceil_div n d =
     (if d = 0 then (if n = 0 then NaN else Infinity)
      else Num (- ((- int n) div d)))"

fun less_jsnum :: "int \<Rightarrow> jsnum \<Rightarrow> bool" where
  "less_jsnum p (Num t) = (p < t)"
| "less_jsnum p Infinity = True"
| "less_jsnum p NaN = False"

definition getStoredEmails ::
  "env \<Rightarrow> string \<Rightarrow> query_options \<Rightarrow> state \<Rightarrow> (error + stored_emails) \<times> state" where
  "getStoredEmails env emailAddress options st =
     (case User_findOne env emailAddress st of
        (Inl e, st1) \<Rightarrow> (Inl e, st1)
      | (Inr None, st1) \<Rightarrow> (Inl (Error ''User not found''), st1)
      | (Inr (Some usr), st1) \<Rightarrow>
          (let page = (case opt_page options of None \<Rightarrow> 1 | Some p \<Rightarrow> p);
               limit = (case opt_limit options of None \<Rightarrow> 20 | Some l \<Rightarrow> l);
               search = (case opt_search options of None \<Rightarrow> [] | Some s \<Rightarrow> s);
               sortBy = (case opt_sortBy options of None \<Rightarrow> ''date'' | Some b \<Rightarrow> b);
               sortOrder = (case opt_sortOrder options of None \<Rightarrow> ''DESC'' | Some d \<Rightarrow> d);
               offset = (page - 1) * limit;
               w = whereClause search (user_id usr)
           in case Email_count env w st1 of
                (Inl e, st2) \<Rightarrow> (Inl e, st2)
              | (Inr cnt, st2) \<Rightarrow>
                  (case Email_findAll env w sortBy (toUpperCase sortOrder) limit offset st2 of
                     (Inl e, st3) \<Rightarrow> (Inl e, st3)
                   | (Inr rows, st3) \<Rightarrow>
                       (Inr \<lparr>emails = rows,
                             pagination =
                               \<lparr>currentPage = page, totalPages = ceil_div cnt limit,
                                totalCount = cnt, page_limit = limit,
                                hasNextPage = less_jsnum page (ceil_div cnt limit),
                                hasPrevPage = (1 < page)\<rparr>\<rparr>,
                        emit (Log Info ''Retrieved stored emails with pagination''
                                [(''email'', S emailAddress), (''page'', N page),
                                 (''limit'', N limit), (''search'', S search),
                                 (''totalCount'', N (int cnt)),
                                 (''totalPages'', Q (ceil_div cnt limit))]) st3))))"

section \<open>Observations on a state\<close>

text \<open>The stored rows under the key \<open>(owner, message id)\<close>.\<close>

definition rows_for :: "int \<Rightarrow> int \<Rightarrow> state \<Rightarrow> email_row list" where
  "rows_for owner mid st =
     filter (\<lambda>r. userId r = owner \<and> messageId r = mid) (emailTable st)"

text \<open>The events a run has added to the trace.\<close>

definition events_since :: "state \<Rightarrow> state \<Rightarrow> event list" where
  "events_since st st' = drop (length (trace st)) (trace st')"

text \<open>Whether a connection is open at the end of a sequence of events, given whether
  one was open at its start.\<close>

fun open_after :: "bool \<Rightarrow> event list \<Rightarrow> bool" where
  "open_after b [] = b"
| "open_after b (ImapConnected # es) = open_after True es"
| "open_after b (ImapEnd # es) = open_after False es"
| "open_after b (ev # es) = open_after b es"

section \<open>Sample data\<close>

text \<open>A small world on which the functions above can be run: one account, a mailbox
  of three messages of which the second does not parse, and collaborators that
  answer without failing unless said otherwise.\<close>

definition sample_user :: user where
  "sample_user =
     \<lparr>user_id = 1, user_email = ''a@x.com'',
      user_accessToken = Str ''at1'', user_refreshToken = Str ''rt1''\<rparr>"

definition sample_message :: "int \<Rightarrow> string \<Rightarrow> string \<Rightarrow> message" where
  "sample_message n subj raw =
     \<lparr>parts = Some
        [\<lparr>which = ''HEADER'',
          part_body = Headers \<lparr>hdr_from = Some [''b@y.org''], hdr_subject = Some [subj],
                               hdr_date = None\<rparr>\<rparr>,
         \<lparr>which = [], part_body = Raw raw\<rparr>],
      attributes = Some \<lparr>uid = n\<rparr>\<rparr>"

definition sample_messages :: "message list" where
  "sample_messages =
     [sample_message 101 ''one'' ''first'', sample_message 102 ''two'' ''bad'',
      sample_message 103 ''three'' ''third'']"

definition sample_parser :: "bodyval \<Rightarrow> error + parsed" where
  "sample_parser b =
     (case b of
        Raw s \<Rightarrow>
          if s = ''bad'' then Inl (Error ''Unexpected end of input'')
          else Inr \<lparr>parsed_text = Some s, parsed_html = None, parsed_attachments = Some []\<rparr>
      | _ \<Rightarrow> Inl (Error ''Unsupported input''))"

definition sample_conn :: connection where
  "sample_conn =
     \<lparr>openBox = (\<lambda>box. None), conn_search = (\<lambda>criteria opts. Inr sample_messages),
      end_conn = None\<rparr>"

definition sample_env :: env where
  "sample_env =
     \<lparr>production = False,
      getAccessToken = (\<lambda>access refresh. Inr (Obj (Some ''at1''))),
      imapConnect = (\<lambda>cfg. Inr sample_conn),
      simpleParser = sample_parser,
      dbFault = (\<lambda>history ev. None),
      dbLike = (\<lambda>pat v. False),
      dbOrder = (\<lambda>field dir rows. Inr rows)\<rparr>"

text \<open>The records that reading the sample mailbox gives.\<close>

definition sample_records :: "emailData list" where
  "sample_records =
     [\<lparr>messageId = 101, from_addr = ''b@y.org'', subject = ''one'', date = Now,
       body = ''first'', bodyHtml = [], hasAttachments = Some False\<rparr>,
      \<lparr>messageId = 102, from_addr = ''b@y.org'', subject = ''two'', date = Now,
       body = [], bodyHtml = [], hasAttachments = Some False\<rparr>,
      \<lparr>messageId = 103, from_addr = ''b@y.org'', subject = ''three'', date = Now,
       body = ''third'', bodyHtml = [], hasAttachments = Some False\<rparr>]"

text \<open>The same world with a provider that issues a new access token.\<close>

definition rotating_env :: env where
  "rotating_env = sample_env\<lparr>getAccessToken := (\<lambda>access refresh. Inr (Obj (Some ''at2'')))\<rparr>"

text \<open>The same world with a database that rejects every write to the cache.\<close>

definition broken_cache_env :: env where
  "broken_cache_env =
     sample_env\<lparr>dbFault :=
       (\<lambda>history ev. case ev of
          EmailFindOrCreate owner mid \<Rightarrow> Some (Error ''Lock wait timeout exceeded'')
        | _ \<Rightarrow> None)\<rparr>"

text \<open>The same world with a mail server that has no inbox.\<close>

definition no_inbox_env :: env where
  "no_inbox_env =
     sample_env\<lparr>imapConnect :=
       (\<lambda>cfg. Inr (sample_conn\<lparr>openBox := (\<lambda>box. Some (Error ''Mailbox does not exist''))\<rparr>))\<rparr>"

definition sample_state :: state where
  "sample_state = \<lparr>userTable = [sample_user], emailTable = [], trace = []\<rparr>"

definition sample_email :: emailData where
  "sample_email =
     \<lparr>messageId = 101, from_addr = ''b@y.org'', subject = ''one'', date = Now,
      body = ''first'', bodyHtml = [], hasAttachments = Some False\<rparr>"

text \<open>A cache that holds a row of the sample account and a row of another owner.\<close>

definition two_owner_state :: state where
  "two_owner_state =
     sample_state\<lparr>emailTable :=
       [new_row sample_email 1, new_row (sample_email\<lparr>messageId := 555\<rparr>) 2]\<rparr>"

section \<open>Basic facts\<close>

lemma trace_emit: "trace (emit ev st) = trace st @ [ev]"
  by (simp add: emit_def)

lemma userTable_emit: "userTable (emit ev st) = userTable st"
  by (simp add: emit_def)

lemma emailTable_emit: "emailTable (emit ev st) = emailTable st"
  by (simp add: emit_def)

lemmas emit_simps = trace_emit userTable_emit emailTable_emit

lemma find_key_None:
  "find (\<lambda>r. userId r = owner \<and> messageId r = mid) (emailTable st) = None
     \<longleftrightarrow> rows_for owner mid st = []"
  by (auto simp add: rows_for_def find_None_iff filter_empty_conv)

lemma find_key_Some:
  assumes "rows_for owner mid st \<noteq> []"
  obtains r where
    "find (\<lambda>r. userId r = owner \<and> messageId r = mid) (emailTable st) = Some r"
  using assms find_key_None [of owner mid st]
  by (cases "find (\<lambda>r. userId r = owner \<and> messageId r = mid) (emailTable st)") auto

lemma new_row_key:
  "userId (new_row e owner) = owner" "messageId (new_row e owner) = messageId e"
  by (simp_all add: new_row_def)

lemma fetchEmails_frame:
  "userTable (snd (fetchEmails e tok addr lim st)) = userTable st"
  "emailTable (snd (fetchEmails e tok addr lim st)) = emailTable st"
  by (simp_all add: emit_simps fetchEmails_def imap_failed_def Let_def split: sum.splits option.splits)

lemma refresh_frame:
  "emailTable (snd (refreshAccessToken e usr st)) = emailTable st"
  by (simp add: emit_simps refreshAccessToken_def refresh_failed_def User_update_def Let_def
        split: sum.splits option.splits)

section \<open>The credential string\<close>

lemma index_of_nth:
  "distinct xs \<Longrightarrow> n < length xs \<Longrightarrow> index_of (xs ! n) xs = Some n"
proof (induction xs arbitrary: n)
  case Nil
  then show ?case by simp
next
  case (Cons x xs)
  then show ?case by (cases n) auto
qed

lemma distinct_alphabet: "distinct base64_alphabet"
  by (simp add: base64_alphabet_def)

lemma length_alphabet: "length base64_alphabet = 64"
  by (simp add: base64_alphabet_def)

lemma unat_sextet_bound: "unat (w AND (63 :: byte)) < 64"
proof -
  have "w AND 63 \<le> 63"
    by (rule word_and_le1)
  then show ?thesis
    by (simp add: word_le_nat_alt)
qed

lemma unsextet_sextet: "unsextet (sextet w) = Some (w AND 63)"
  by (simp add: unsextet_def sextet_def index_of_nth distinct_alphabet length_alphabet
        unat_sextet_bound)

lemma sextet_not_pad: "sextet w \<noteq> CHR ''=''"
proof -
  have "sextet w \<in> set base64_alphabet"
    by (simp add: sextet_def length_alphabet unat_sextet_bound)
  moreover have "CHR ''='' \<notin> set base64_alphabet"
    by (simp add: base64_alphabet_def)
  ultimately show ?thesis by auto
qed

lemma mask_numerals: "(3 :: byte) = mask 2" "(15 :: byte) = mask 4" "(63 :: byte) = mask 6"
  by (simp_all add: mask_eq_exp_minus_1)

lemma byte1:
  "push_bit 2 (drop_bit 2 a AND 63) OR drop_bit 4 ((push_bit 4 (a AND 3) OR drop_bit 4 b) AND 63) = (a :: byte)"
proof (rule bit_word_eqI)
  fix n :: nat
  assume "n < LENGTH(8)"
  then consider "n = 0" | "n = 1" | "n = 2" | "n = 3" | "n = 4" | "n = 5" | "n = 6" | "n = 7"
    by force
  then show "bit (push_bit 2 (drop_bit 2 a AND 63) OR drop_bit 4 ((push_bit 4 (a AND 3) OR drop_bit 4 b) AND 63)) n = bit a n"
    unfolding mask_numerals by cases (simp_all add: bit_simps)
qed

lemma byte2:
  "push_bit 4 (((push_bit 4 (a AND 3) OR drop_bit 4 b) AND 63) AND 15) OR drop_bit 2 ((push_bit 2 (b AND 15) OR drop_bit 6 c) AND 63) = (b :: byte)"
proof (rule bit_word_eqI)
  fix n :: nat
  assume "n < LENGTH(8)"
  then consider "n = 0" | "n = 1" | "n = 2" | "n = 3" | "n = 4" | "n = 5" | "n = 6" | "n = 7"
    by force
  then show "bit (push_bit 4 (((push_bit 4 (a AND 3) OR drop_bit 4 b) AND 63) AND 15) OR drop_bit 2 ((push_bit 2 (b AND 15) OR drop_bit 6 c) AND 63)) n = bit b n"
    unfolding mask_numerals by cases (simp_all add: bit_simps)
qed

lemma byte3:
  "push_bit 6 (((push_bit 2 (b AND 15) OR drop_bit 6 c) AND 63) AND 3) OR ((c AND 63) AND 63) = (c :: byte)"
proof (rule bit_word_eqI)
  fix n :: nat
  assume "n < LENGTH(8)"
  then consider "n = 0" | "n = 1" | "n = 2" | "n = 3" | "n = 4" | "n = 5" | "n = 6" | "n = 7"
    by force
  then show "bit (push_bit 6 (((push_bit 2 (b AND 15) OR drop_bit 6 c) AND 63) AND 3) OR ((c AND 63) AND 63)) n = bit c n"
    unfolding mask_numerals by cases (simp_all add: bit_simps)
qed

lemma unsextet_A: "unsextet CHR ''A'' = Some 0"
  by (simp add: unsextet_def base64_alphabet_def)

lemma unquad_sextets:
  "unquad (sextet w1) (sextet w2) (sextet w3) (sextet w4) =
     Some (push_bit 2 (w1 AND 63) OR drop_bit 4 (w2 AND 63),
           push_bit 4 ((w2 AND 63) AND 15) OR drop_bit 2 (w3 AND 63),
           push_bit 6 ((w3 AND 63) AND 3) OR (w4 AND 63))"
  by (simp add: unquad_def unsextet_sextet)

lemma sextet_0: "sextet 0 = CHR ''A''"
  by (simp add: sextet_def base64_alphabet_def)

lemma unbase64_base64: "unbase64 (base64 bs) = Some bs"
proof (induction bs rule: base64.induct)
  case (1 a b c rest)
  have q: "unquad (sextet (drop_bit 2 a)) (sextet (push_bit 4 (a AND 3) OR drop_bit 4 b))
             (sextet (push_bit 2 (b AND 15) OR drop_bit 6 c)) (sextet (c AND 63)) =
           Some (a, b, c)"
    by (simp only: unquad_sextets byte1 byte2 byte3)
  show ?case
    by (simp only: base64.simps unbase64.simps append_Cons append_Nil q sextet_not_pad
          simp_thms if_False option.case prod.case "1.IH")
next
  case (2 a b)
  have "unquad (sextet (drop_bit 2 a)) (sextet (push_bit 4 (a AND 3) OR drop_bit 4 b))
          (sextet (push_bit 2 (b AND 15) OR drop_bit 6 0)) (sextet 0) =
        Some (a, b, push_bit 6 (((push_bit 2 (b AND 15) OR drop_bit 6 0) AND 63) AND 3) OR (0 AND 63))"
    by (simp only: unquad_sextets byte1 byte2)
  then have q: "unquad (sextet (drop_bit 2 a)) (sextet (push_bit 4 (a AND 3) OR drop_bit 4 b))
          (sextet (push_bit 2 (b AND 15))) CHR ''A'' =
        Some (a, b, push_bit 6 (((push_bit 2 (b AND 15) OR drop_bit 6 0) AND 63) AND 3) OR (0 AND 63))"
    by (simp only: sextet_0 drop_bit_of_0 or.right_neutral)
  show ?case
    by (simp only: base64.simps unbase64.simps q sextet_not_pad
          simp_thms if_True if_False option.case prod.case)
next
  case (3 a)
  have "unquad (sextet (drop_bit 2 a)) (sextet (push_bit 4 (a AND 3) OR drop_bit 4 0))
          (sextet 0) (sextet 0) =
        Some (a, push_bit 4 (((push_bit 4 (a AND 3) OR drop_bit 4 0) AND 63) AND 15) OR drop_bit 2 (0 AND 63),
              push_bit 6 ((0 AND 63) AND 3) OR (0 AND 63))"
    by (simp only: unquad_sextets byte1)
  then have q: "unquad (sextet (drop_bit 2 a)) (sextet (push_bit 4 (a AND 3))) CHR ''A'' CHR ''A'' =
        Some (a, push_bit 4 (((push_bit 4 (a AND 3) OR drop_bit 4 0) AND 63) AND 15) OR drop_bit 2 (0 AND 63),
              push_bit 6 ((0 AND 63) AND 3) OR (0 AND 63))"
    by (simp only: sextet_0 drop_bit_of_0 or.right_neutral)
  show ?case
    by (simp only: base64.simps unbase64.simps q
          simp_thms if_True option.case prod.case)
next
  case 4
  show ?case
    by (simp only: base64.simps unbase64.simps)
qed

lemma utf8_ascii:
  "\<forall>c \<in> set s. (of_char c :: nat) < 128 \<Longrightarrow> utf8 s = map of_char s"
  by (induction s) simp_all

text \<open>
  C6.  For every mailbox address and access token, the credential string is the base64
  encoding of the bytes of \<^verbatim>\<open>user=<addr>\x01auth=Bearer <token>\x01\x01\<close>: decoding it
  gives these bytes back, and for an address and a token in ASCII they are the
  characters themselves.
\<close>

theorem buildXOAuth2Token_bytes:
  "buildXOAuth2Token addr (Str tok) =
     base64 (utf8 (''user='' @ addr @ [SOH] @ ''auth=Bearer '' @ tok @ [SOH, SOH]))
   \<and> unbase64 (buildXOAuth2Token addr (Str tok)) =
     Some (utf8 (''user='' @ addr @ [SOH] @ ''auth=Bearer '' @ tok @ [SOH, SOH]))
   \<and> ((\<forall>c \<in> set (addr @ tok). (of_char c :: nat) < 128) \<longrightarrow>
        utf8 (''user='' @ addr @ [SOH] @ ''auth=Bearer '' @ tok @ [SOH, SOH]) =
        map of_char (''user='' @ addr @ [SOH] @ ''auth=Bearer '' @ tok @ [SOH, SOH]))"
proof (intro conjI impI)
  show e: "buildXOAuth2Token addr (Str tok) =
     base64 (utf8 (''user='' @ addr @ [SOH] @ ''auth=Bearer '' @ tok @ [SOH, SOH]))"
    by (simp add: buildXOAuth2Token_def)
  show "unbase64 (buildXOAuth2Token addr (Str tok)) =
     Some (utf8 (''user='' @ addr @ [SOH] @ ''auth=Bearer '' @ tok @ [SOH, SOH]))"
    unfolding e by (rule unbase64_base64)
next
  assume a: "\<forall>c \<in> set (addr @ tok). (of_char c :: nat) < 128"
  have "\<forall>c \<in> set (''user='' @ addr @ [SOH] @ ''auth=Bearer '' @ tok @ [SOH, SOH]).
          (of_char c :: nat) < 128"
    using a by (auto simp add: SOH_def)
  then show "utf8 (''user='' @ addr @ [SOH] @ ''auth=Bearer '' @ tok @ [SOH, SOH]) =
        map of_char (''user='' @ addr @ [SOH] @ ''auth=Bearer '' @ tok @ [SOH, SOH])"
    by (rule utf8_ascii)
qed

theorem buildXOAuth2Token_bytes_witness:
  "buildXOAuth2Token ''a@x.com'' (Str ''at1'') = ''dXNlcj1hQHguY29tAWF1dGg9QmVhcmVyIGF0MQEB''
   \<and> unbase64 ''dXNlcj1hQHguY29tAWF1dGg9QmVhcmVyIGF0MQEB'' =
       Some (map of_char (''user=a@x.com'' @ [SOH] @ ''auth=Bearer at1'' @ [SOH, SOH]))"
proof -
  note t = buildXOAuth2Token_bytes [of "''a@x.com''" "''at1''"]
  have ascii: "\<forall>c \<in> set (''a@x.com'' @ ''at1''). (of_char c :: nat) < 128"
    by simp
  have v: "base64 (utf8 (''user='' @ ''a@x.com'' @ [SOH] @ ''auth=Bearer '' @ ''at1'' @ [SOH, SOH])) =
             ''dXNlcj1hQHguY29tAWF1dGg9QmVhcmVyIGF0MQEB''"
    by code_simp
  from t [THEN conjunct1] v
  have one: "buildXOAuth2Token ''a@x.com'' (Str ''at1'') = ''dXNlcj1hQHguY29tAWF1dGg9QmVhcmVyIGF0MQEB''"
    by (simp only:)
  from t [THEN conjunct2, THEN conjunct1] t [THEN conjunct2, THEN conjunct2, THEN mp, OF ascii]
  have "unbase64 (buildXOAuth2Token ''a@x.com'' (Str ''at1'')) =
       Some (map of_char (''user='' @ ''a@x.com'' @ [SOH] @ ''auth=Bearer '' @ ''at1'' @ [SOH, SOH]))"
    by (simp only:)
  then have two: "unbase64 ''dXNlcj1hQHguY29tAWF1dGg9QmVhcmVyIGF0MQEB'' =
       Some (map of_char (''user=a@x.com'' @ [SOH] @ ''auth=Bearer at1'' @ [SOH, SOH]))"
    unfolding one by simp
  from one two show ?thesis
    by (intro conjI)
qed

section \<open>Token refresh\<close>

text \<open>
  C4.  An account without a refresh token: the refresh fails with the
  re-authentication error and the state, trace included, is untouched; in particular
  the identity provider is not called.
\<close>

theorem refresh_without_refresh_token:
  assumes "\<not> truthy (user_refreshToken usr)"
  shows "refreshAccessToken env usr st =
           (Inl (Error ''No refresh token available; re-authentication required''), st)"
  using assms by (simp add: emit_simps refreshAccessToken_def)

theorem refresh_without_refresh_token_witness:
  "\<not> truthy (user_refreshToken (sample_user\<lparr>user_refreshToken := Null\<rparr>))
   \<and> refreshAccessToken sample_env (sample_user\<lparr>user_refreshToken := Null\<rparr>) sample_state =
       (Inl (Error ''No refresh token available; re-authentication required''), sample_state)
   \<and> GetAccessToken \<notin> set (trace sample_state)"
proof -
  have h: "\<not> truthy (user_refreshToken (sample_user\<lparr>user_refreshToken := Null\<rparr>))"
    by simp
  from refresh_without_refresh_token [OF h, of sample_env sample_state] h
  show ?thesis by (simp add: sample_state_def)
qed

text \<open>
  C5.  An account with a refresh token, and a provider that answers with the access
  token \<open>t\<close> (in a response object, or bare).  If \<open>t\<close> is the stored token, the refresh returns it, the user table is
  unchanged and the calls made are exactly the credential set-up and the provider call:
  no update.  If \<open>t\<close> differs, the update of the row is issued; whenever the refresh
  returns a value, it is \<open>t\<close> and the row of the account holds \<open>t\<close>; and when the
  database accepts the update, the refresh does return \<open>t\<close>.
\<close>

theorem refresh_persists_changed_token_only:
  assumes rt: "truthy (user_refreshToken usr)"
    and resp: "getAccessToken env (user_accessToken usr) (user_refreshToken usr) = Inr response"
    and shape: "response = Obj (Some t) \<or> response = Str t"
    and t: "t \<noteq> []"
  shows "(user_accessToken usr = Str t \<longrightarrow>
            fst (refreshAccessToken env usr st) = Inr (Str t)
          \<and> userTable (snd (refreshAccessToken env usr st)) = userTable st
          \<and> trace (snd (refreshAccessToken env usr st)) =
              trace st @
                [Log Info ''Refreshing access token'' [(''email'', S (user_email usr))],
                 SetCredentials (user_accessToken usr) (user_refreshToken usr),
                 GetAccessToken,
                 Log Info ''Token refreshed successfully'' [(''email'', S (user_email usr))]])
       \<and> (user_accessToken usr \<noteq> Str t \<longrightarrow>
            UserUpdate (user_id usr) (Str t) \<in> set (trace (snd (refreshAccessToken env usr st)))
          \<and> (\<forall>v. fst (refreshAccessToken env usr st) = Inr v \<longrightarrow>
                 v = Str t
               \<and> (\<forall>u \<in> set (userTable (snd (refreshAccessToken env usr st))).
                     user_id u = user_id usr \<longrightarrow> user_accessToken u = Str t))
          \<and> ((\<forall>h. dbFault env h (UserUpdate (user_id usr) (Str t)) = None) \<longrightarrow>
                 fst (refreshAccessToken env usr st) = Inr (Str t)
               \<and> userTable (snd (refreshAccessToken env usr st)) =
                   map (\<lambda>u. if user_id u = user_id usr then u\<lparr>user_accessToken := Str t\<rparr> else u)
                     (userTable st)))"
proof -
  have fresh: "(if truthy response \<and> truthy (token_of response)
                then token_of response else response) = Str t"
    using shape t by auto
  show ?thesis
  proof (cases "user_accessToken usr = Str t")
    case True
    then show ?thesis
      using rt resp t fresh by (simp add: emit_simps refreshAccessToken_def Let_def)
  next
    case False
    then have ne: "\<not> strict_eq (Str t) (user_accessToken usr)"
      by (cases "user_accessToken usr") auto
    show ?thesis
      using False ne rt resp t fresh
      by (auto simp add: emit_simps refreshAccessToken_def User_update_def refresh_failed_def
               Let_def split: option.splits)
  qed
qed

theorem refresh_persists_changed_token_only_witness:
  "fst (refreshAccessToken sample_env sample_user sample_state) = Inr (Str ''at1'')
   \<and> userTable (snd (refreshAccessToken sample_env sample_user sample_state)) = [sample_user]
   \<and> fst (refreshAccessToken rotating_env sample_user sample_state) = Inr (Str ''at2'')
   \<and> userTable (snd (refreshAccessToken rotating_env sample_user sample_state)) =
       [sample_user\<lparr>user_accessToken := Str ''at2''\<rparr>]"
proof -
  have rt: "truthy (user_refreshToken sample_user)"
    by (simp add: sample_user_def)
  have same: "getAccessToken sample_env (user_accessToken sample_user)
                (user_refreshToken sample_user) = Inr (Obj (Some ''at1''))"
    by (simp add: sample_env_def)
  have changed: "getAccessToken rotating_env (user_accessToken sample_user)
                   (user_refreshToken sample_user) = Inr (Obj (Some ''at2''))"
    by (simp add: rotating_env_def)
  have quiet: "dbFault rotating_env h (UserUpdate (user_id sample_user) (Str ''at2'')) = None"
    for h
    by (simp add: rotating_env_def sample_env_def)
  have t1: "''at1'' \<noteq> []" and t2: "''at2'' \<noteq> []"
    by simp_all
  have s1: "Obj (Some ''at1'') = Obj (Some ''at1'') \<or> Obj (Some ''at1'') = Str ''at1''"
    and s2: "Obj (Some ''at2'') = Obj (Some ''at2'') \<or> Obj (Some ''at2'') = Str ''at2''"
    by simp_all
  have a1: "user_accessToken sample_user = Str ''at1''"
    and a2: "user_accessToken sample_user \<noteq> Str ''at2''"
    by (simp_all add: sample_user_def)
  note one = refresh_persists_changed_token_only
    [OF rt same s1 t1, of sample_state, THEN conjunct1, rule_format, OF a1]
  note two = refresh_persists_changed_token_only
    [OF rt changed s2 t2, of sample_state, THEN conjunct2, rule_format, OF a2,
     THEN conjunct2, THEN conjunct2, rule_format, OF quiet]
  from one two show ?thesis
    by (simp add: sample_state_def)
qed

section \<open>Reading the mailbox\<close>

lemma open_after_append: "open_after b (xs @ ys) = open_after (open_after b xs) ys"
proof (induction xs arbitrary: b)
  case Nil
  then show ?case by simp
next
  case (Cons ev xs)
  then show ?case by (cases ev) simp_all
qed

text \<open>
  C9.  Over the events of one run of \<^verbatim>\<open>fetchEmails\<close>, no connection is left open:
  whenever \<^verbatim>\<open>imaps.connect\<close> has delivered a connection, \<^verbatim>\<open>connection.end()\<close> is
  called after it, on the path that returns and on every path that throws.
\<close>

theorem fetchEmails_closes_connection:
  "\<not> open_after False (events_since st (snd (fetchEmails env tok addr lim st)))
   \<and> (\<forall>conn. imapConnect env (imap_config_of env addr (buildXOAuth2Token addr tok)) = Inr conn
         \<longrightarrow> ImapConnected \<in> set (events_since st (snd (fetchEmails env tok addr lim st)))
           \<and> ImapEnd \<in> set (events_since st (snd (fetchEmails env tok addr lim st))))"
proof (cases "imapConnect env (imap_config_of env addr (buildXOAuth2Token addr tok))")
  case (Inl e)
  then show ?thesis
    by (simp add: emit_simps fetchEmails_def imap_failed_def Let_def events_since_def)
next
  case (Inr conn)
  note c = this
  show ?thesis
  proof (cases "openBox conn ''INBOX''")
    case (Some e)
    with c show ?thesis
      by (simp add: emit_simps fetchEmails_def imap_failed_def Let_def events_since_def split: option.splits)
  next
    case None
    note b = this
    show ?thesis
    proof (cases "conn_search conn [''ALL''] fetchOptions")
      case (Inl e)
      with c b show ?thesis
        by (simp add: emit_simps fetchEmails_def imap_failed_def Let_def events_since_def
              split: option.splits)
    next
      case (Inr messages)
      with c b show ?thesis
        by (simp add: emit_simps fetchEmails_def imap_failed_def Let_def events_since_def
              open_after_append split: option.splits)
    qed
  qed
qed

theorem fetchEmails_closes_connection_witness:
  "\<not> open_after False
       (events_since sample_state
          (snd (fetchEmails sample_env (Str ''at1'') ''a@x.com'' None sample_state)))
   \<and> ImapConnected \<in> set (events_since sample_state
          (snd (fetchEmails sample_env (Str ''at1'') ''a@x.com'' None sample_state)))
   \<and> ImapEnd \<in> set (events_since sample_state
          (snd (fetchEmails sample_env (Str ''at1'') ''a@x.com'' None sample_state)))
   \<and> fst (fetchEmails no_inbox_env (Str ''at1'') ''a@x.com'' None sample_state) =
       Inl (Error ''Mailbox does not exist'')
   \<and> \<not> open_after False
       (events_since sample_state
          (snd (fetchEmails no_inbox_env (Str ''at1'') ''a@x.com'' None sample_state)))
   \<and> ImapEnd \<in> set (events_since sample_state
          (snd (fetchEmails no_inbox_env (Str ''at1'') ''a@x.com'' None sample_state)))"
proof -
  have c: "imapConnect sample_env
             (imap_config_of sample_env ''a@x.com'' (buildXOAuth2Token ''a@x.com'' (Str ''at1''))) =
           Inr sample_conn"
    by (simp add: sample_env_def)
  have c': "imapConnect no_inbox_env
             (imap_config_of no_inbox_env ''a@x.com''
                (buildXOAuth2Token ''a@x.com'' (Str ''at1''))) =
           Inr (sample_conn\<lparr>openBox := (\<lambda>box. Some (Error ''Mailbox does not exist''))\<rparr>)"
    by (simp add: no_inbox_env_def)
  have thrown: "fst (fetchEmails no_inbox_env (Str ''at1'') ''a@x.com'' None sample_state) =
       Inl (Error ''Mailbox does not exist'')"
    by (simp add: emit_simps fetchEmails_def imap_failed_def Let_def no_inbox_env_def)
  note ok = fetchEmails_closes_connection
    [of sample_state sample_env "Str ''at1''" "''a@x.com''" None]
  note ko = fetchEmails_closes_connection
    [of sample_state no_inbox_env "Str ''at1''" "''a@x.com''" None]
  from ok [THEN conjunct1] ok [THEN conjunct2, rule_format, OF c]
    ko [THEN conjunct1] ko [THEN conjunct2, rule_format, OF c'] thrown
  show ?thesis
    by (intro conjI) (erule conjunct1 conjunct2 | assumption)+
qed

lemma parse_headers_keeps:
  "messageId (parse_headers h ed) = messageId ed"
  "body (parse_headers h ed) = body ed"
  "bodyHtml (parse_headers h ed) = bodyHtml ed"
  "hasAttachments (parse_headers h ed) = hasAttachments ed"
  by (simp_all add: parse_headers_def split: option.splits bodyval.splits)

lemma parse_body_bounds:
  assumes "length (body ed) \<le> 5000" and "length (bodyHtml ed) \<le> 10000"
  shows "length (body (fst (parse_body env al ed))) \<le> 5000
       \<and> length (bodyHtml (fst (parse_body env al ed))) \<le> 10000"
  using assms
  by (simp add: parse_body_def Let_def split: option.splits sum.splits)

lemma processMessage_bounds:
  assumes "fst (processMessage env m) = Inr (Some r)"
  shows "length (body r) \<le> 5000 \<and> length (bodyHtml r) \<le> 10000"
proof -
  from assms obtain ps a where p: "parts m = Some ps" and at: "attributes m = Some a"
    by (auto simp add: processMessage_def catch_message_def split: option.splits)
  let ?ed = "parse_headers (find (\<lambda>p. which p = ''HEADER'') ps)
               \<lparr>messageId = uid a, from_addr = [], subject = [], date = Now,
                body = [], bodyHtml = [], hasAttachments = Some False\<rparr>"
  from assms p at have "r = fst (parse_body env (find (\<lambda>p. which p = []) ps) ?ed)"
    by (simp add: processMessage_def Let_def split: prod.splits)
  moreover have "length (body ?ed) \<le> 5000" "length (bodyHtml ?ed) \<le> 10000"
    by (simp_all add: parse_headers_keeps)
  ultimately show ?thesis
    using parse_body_bounds by blast
qed

text \<open>What a successful run of \<^verbatim>\<open>fetchEmails\<close> went through.\<close>

lemma fetchEmails_Inr:
  assumes "fetchEmails env tok addr lim st = (Inr rs, st')"
  obtains conn messages where
    "imapConnect env (imap_config_of env addr (buildXOAuth2Token addr tok)) = Inr conn"
    "openBox conn ''INBOX'' = None"
    "conn_search conn [''ALL''] fetchOptions = Inr messages"
    "end_conn conn = None"
    "first_rejection (map fst (map (processMessage env)
        (slice0 messages (case lim of None \<Rightarrow> 50 | Some l \<Rightarrow> l)))) = None"
    "rs = List.map_filter (\<lambda>r. case r of Inl _ \<Rightarrow> None | Inr v \<Rightarrow> v)
            (map fst (map (processMessage env)
               (slice0 messages (case lim of None \<Rightarrow> 50 | Some l \<Rightarrow> l))))"
proof (cases "imapConnect env (imap_config_of env addr (buildXOAuth2Token addr tok))")
  case (Inl e)
  with assms show ?thesis
    by (simp add: emit_simps fetchEmails_def imap_failed_def Let_def)
next
  case (Inr conn)
  note c = this
  show ?thesis
  proof (cases "openBox conn ''INBOX''")
    case (Some e)
    with c assms show ?thesis
      by (simp add: emit_simps fetchEmails_def imap_failed_def Let_def)
  next
    case None
    note b = this
    show ?thesis
    proof (cases "conn_search conn [''ALL''] fetchOptions")
      case (Inl e)
      with c b assms show ?thesis
        by (simp add: emit_simps fetchEmails_def imap_failed_def Let_def)
    next
      case (Inr messages)
      note s = this
      let ?lm = "slice0 messages (case lim of None \<Rightarrow> 50 | Some l \<Rightarrow> l)"
      show ?thesis
      proof (cases "first_rejection (map fst (map (processMessage env) ?lm))")
        case (Some e)
        with c b s assms show ?thesis
          by (simp add: emit_simps fetchEmails_def imap_failed_def Let_def)
      next
        case None
        note f = this
        show ?thesis
        proof (cases "end_conn conn")
          case (Some e)
          with c b s f assms show ?thesis
            by (simp add: emit_simps fetchEmails_def imap_failed_def Let_def)
        next
          case None
          with c b s f assms have
            "rs = List.map_filter (\<lambda>r. case r of Inl _ \<Rightarrow> None | Inr v \<Rightarrow> v)
                    (map fst (map (processMessage env) ?lm))"
            by (simp add: emit_simps fetchEmails_def Let_def)
          with c b s f None that show ?thesis
            by blast
        qed
      qed
    qed
  qed
qed

lemma map_filter_results:
  "List.map_filter (\<lambda>r. case r of Inl _ \<Rightarrow> None | Inr v \<Rightarrow> v) (map fst (map (processMessage env) ms))
     = List.map_filter (\<lambda>m. case fst (processMessage env m) of Inl _ \<Rightarrow> None | Inr v \<Rightarrow> v) ms"
  by (simp add: List.map_filter_def comp_def filter_map)

lemma length_map_filter_le: "length (List.map_filter f xs) \<le> length xs"
  by (simp add: List.map_filter_def)

lemma set_map_filter: "set (List.map_filter f xs) = {y. \<exists>x \<in> set xs. f x = Some y}"
proof -
  have "y \<in> set (List.map_filter f xs) \<longleftrightarrow> (\<exists>x \<in> set xs. f x = Some y)" for y
  proof
    assume "y \<in> set (List.map_filter f xs)"
    then obtain x where "x \<in> set xs" "f x \<noteq> None" "y = the (f x)"
      by (auto simp add: List.map_filter_def)
    then show "\<exists>x \<in> set xs. f x = Some y"
      by auto
  next
    assume "\<exists>x \<in> set xs. f x = Some y"
    then obtain x where "x \<in> set xs" "f x = Some y"
      by auto
    then have "x \<in> set (filter (\<lambda>x. f x \<noteq> None) xs)" "the (f x) = y"
      by simp_all
    then show "y \<in> set (List.map_filter f xs)"
      unfolding List.map_filter_def set_map comp_def by blast
  qed
  then show ?thesis
    by blast
qed

lemma sample_fetch:
  assumes "imapConnect e = (\<lambda>cfg. Inr sample_conn)" "simpleParser e = sample_parser"
  shows "fst (fetchEmails e tok ''a@x.com'' None s) = Inr sample_records"
  using assms
  by (simp add: emit_simps fetchEmails_def sample_conn_def slice0_def sample_messages_def sample_message_def
      processMessage_def parse_headers_def parse_body_def header_first_def Let_def sample_parser_def
      List.map_filter_def sample_records_def)

text \<open>
  C7.  A run of \<^verbatim>\<open>fetchEmails\<close> with a limit that is not negative (50 when none is
  given) that returns, returns at most \<open>limit\<close> records; they are the records of the
  first \<open>limit\<close> messages of the search result, in its order, without those whose
  processing gave \<^verbatim>\<open>null\<close>; and each has a body of at most 5000 and an HTML body of
  at most 10000 characters.
\<close>

theorem fetchEmails_limit_and_bounds:
  assumes run: "fetchEmails env tok addr lim st = (Inr rs, st')"
    and lim: "limit = (case lim of None \<Rightarrow> 50 | Some l \<Rightarrow> l)"
    and valid: "0 \<le> limit"
  shows "int (length rs) \<le> limit
       \<and> (\<forall>r \<in> set rs. length (body r) \<le> 5000 \<and> length (bodyHtml r) \<le> 10000)
       \<and> (\<exists>conn messages.
             imapConnect env (imap_config_of env addr (buildXOAuth2Token addr tok)) = Inr conn
           \<and> conn_search conn [''ALL''] fetchOptions = Inr messages
           \<and> rs = List.map_filter
                    (\<lambda>m. case fst (processMessage env m) of Inl _ \<Rightarrow> None | Inr v \<Rightarrow> v)
                    (take (nat limit) messages))"
proof -
  from run obtain conn messages where
    c: "imapConnect env (imap_config_of env addr (buildXOAuth2Token addr tok)) = Inr conn"
    and s: "conn_search conn [''ALL''] fetchOptions = Inr messages"
    and rs: "rs = List.map_filter (\<lambda>r. case r of Inl _ \<Rightarrow> None | Inr v \<Rightarrow> v)
            (map fst (map (processMessage env) (slice0 messages limit)))"
    unfolding lim by (rule fetchEmails_Inr)
  from valid have sl: "slice0 messages limit = take (nat limit) messages"
    by (simp add: slice0_def)
  have rs': "rs = List.map_filter
                    (\<lambda>m. case fst (processMessage env m) of Inl _ \<Rightarrow> None | Inr v \<Rightarrow> v)
                    (take (nat limit) messages)"
    unfolding rs sl by (rule map_filter_results)
  have "length rs \<le> length (take (nat limit) messages)"
    unfolding rs' by (rule length_map_filter_le)
  also have "\<dots> \<le> nat limit"
    by simp
  finally have len: "int (length rs) \<le> limit"
    using valid by simp
  have bounds: "length (body r) \<le> 5000 \<and> length (bodyHtml r) \<le> 10000" if "r \<in> set rs" for r
  proof -
    from that obtain m where
      m: "(case fst (processMessage env m) of Inl _ \<Rightarrow> None | Inr v \<Rightarrow> v) = Some r"
      unfolding rs' set_map_filter by blast
    then have "fst (processMessage env m) = Inr (Some r)"
      by (cases "fst (processMessage env m)") simp_all
    then show ?thesis
      by (rule processMessage_bounds)
  qed
  from len bounds c s rs' show ?thesis
    by blast
qed

theorem fetchEmails_limit_and_bounds_witness:
  "fetchEmails sample_env (Str ''at1'') ''a@x.com'' (Some 2) sample_state =
     (Inr (take 2 sample_records),
      snd (fetchEmails sample_env (Str ''at1'') ''a@x.com'' (Some 2) sample_state))
   \<and> (0::int) \<le> 2
   \<and> int (length (take 2 sample_records)) \<le> 2
   \<and> length (body (sample_records ! 0)) \<le> 5000
   \<and> length (bodyHtml (sample_records ! 0)) \<le> 10000
   \<and> length (body (sample_records ! 1)) \<le> 5000
   \<and> length (bodyHtml (sample_records ! 1)) \<le> 10000"
proof -
  have run: "fetchEmails sample_env (Str ''at1'') ''a@x.com'' (Some 2) sample_state =
     (Inr (take 2 sample_records),
      snd (fetchEmails sample_env (Str ''at1'') ''a@x.com'' (Some 2) sample_state))"
    by (simp add: emit_simps prod_eq_iff fetchEmails_def sample_env_def sample_conn_def slice0_def
          sample_messages_def sample_message_def processMessage_def parse_headers_def
          parse_body_def header_first_def Let_def sample_parser_def List.map_filter_def
          sample_records_def)
  have lim: "(2::int) = (case Some 2 of None \<Rightarrow> 50 | Some l \<Rightarrow> l)"
    by simp
  have valid: "(0::int) \<le> 2"
    by simp
  note b = fetchEmails_limit_and_bounds [OF run lim valid]
  have m0: "sample_records ! 0 \<in> set (take 2 sample_records)"
    and m1: "sample_records ! 1 \<in> set (take 2 sample_records)"
    by (simp_all add: sample_records_def)
  note b0 = b [THEN conjunct2, THEN conjunct1, rule_format, OF m0]
  note b1 = b [THEN conjunct2, THEN conjunct1, rule_format, OF m1]
  from run valid b [THEN conjunct1] b0 b1
  show ?thesis
    by (intro conjI) (erule conjunct1 conjunct2 | assumption)+
qed

lemma processMessage_readable:
  assumes "parts m = Some ps" and "attributes m = Some a"
  shows "\<exists>r. fst (processMessage env m) = Inr (Some r)"
  using assms by (simp add: processMessage_def Let_def split: prod.splits)

lemma all_kept:
  assumes "\<forall>m \<in> set ms. \<exists>r. f m = Inr (Some r)"
  shows "first_rejection (map f ms) = None
       \<and> length (List.map_filter (\<lambda>r. case r of Inl _ \<Rightarrow> None | Inr v \<Rightarrow> v) (map f ms)) = length ms
       \<and> (\<forall>i < length ms.
            f (ms ! i) =
              Inr (Some (List.map_filter (\<lambda>r. case r of Inl _ \<Rightarrow> None | Inr v \<Rightarrow> v) (map f ms) ! i)))"
  using assms
proof (induction ms)
  case Nil
  then show ?case by (simp add: List.map_filter_def)
next
  case (Cons m ms)
  then obtain r where r: "f m = Inr (Some r)"
    by auto
  from Cons have ih: "first_rejection (map f ms) = None"
    "length (List.map_filter (\<lambda>r. case r of Inl _ \<Rightarrow> None | Inr v \<Rightarrow> v) (map f ms)) = length ms"
    "\<forall>i < length ms.
            f (ms ! i) =
              Inr (Some (List.map_filter (\<lambda>r. case r of Inl _ \<Rightarrow> None | Inr v \<Rightarrow> v) (map f ms) ! i))"
    by auto
  have hd: "List.map_filter (\<lambda>r. case r of Inl _ \<Rightarrow> None | Inr v \<Rightarrow> v) (map f (m # ms)) =
        r # List.map_filter (\<lambda>r. case r of Inl _ \<Rightarrow> None | Inr v \<Rightarrow> v) (map f ms)"
    using r by (simp add: List.map_filter_def)
  show ?case
  proof (intro conjI allI impI)
    show "first_rejection (map f (m # ms)) = None"
      using r ih(1) by simp
    show "length (List.map_filter (\<lambda>r. case r of Inl _ \<Rightarrow> None | Inr v \<Rightarrow> v) (map f (m # ms))) =
          length (m # ms)"
      unfolding hd using ih(2) by simp
    fix i assume "i < length (m # ms)"
    then show "f ((m # ms) ! i) =
       Inr (Some (List.map_filter (\<lambda>r. case r of Inl _ \<Rightarrow> None | Inr v \<Rightarrow> v) (map f (m # ms)) ! i))"
      unfolding hd using r ih(3) by (cases i) simp_all
  qed
qed

lemma parse_failure_record:
  assumes "parts m = Some ps" and "attributes m = Some a"
    and "find (\<lambda>p. which p = []) ps = Some al" and "body_truthy (part_body al)"
    and "simpleParser env (part_body al) = Inl perr"
  shows "\<exists>r. processMessage env m =
               (Inr (Some r),
                [Log Warn ''Failed to parse email body''
                   [(''messageId'', N (uid a)), (''error'', S (message perr))]])
             \<and> messageId r = uid a \<and> body r = [] \<and> bodyHtml r = []
             \<and> hasAttachments r = Some False"
  using assms by (simp add: processMessage_def parse_body_def parse_headers_keeps Let_def)

text \<open>
  C2, as the code has it.  A failure of the body parse is caught inside the callback:
  the message stays in the result, with an empty body, an empty HTML body and no
  attachments, and a warning is logged.  So when the connection works and every
  fetched message has its parts and attributes, the run returns one record per fetched
  message, in order, whatever the parser does.
\<close>

theorem body_parse_failure_keeps_message:
  assumes c: "imapConnect env (imap_config_of env addr (buildXOAuth2Token addr tok)) = Inr conn"
    and b: "openBox conn ''INBOX'' = None"
    and s: "conn_search conn [''ALL''] fetchOptions = Inr messages"
    and e: "end_conn conn = None"
    and lm: "limited = slice0 messages (case lim of None \<Rightarrow> 50 | Some l \<Rightarrow> l)"
    and wf: "\<forall>m \<in> set limited. parts m \<noteq> None \<and> attributes m \<noteq> None"
  shows "(\<exists>rs. fst (fetchEmails env tok addr lim st) = Inr rs
            \<and> length rs = length limited
            \<and> (\<forall>i < length limited. fst (processMessage env (limited ! i)) = Inr (Some (rs ! i))))
       \<and> (\<forall>m ps a al perr.
            parts m = Some ps \<and> attributes m = Some a
            \<and> find (\<lambda>p. which p = []) ps = Some al \<and> body_truthy (part_body al)
            \<and> simpleParser env (part_body al) = Inl perr \<longrightarrow>
            (\<exists>r. processMessage env m =
                   (Inr (Some r),
                    [Log Warn ''Failed to parse email body''
                       [(''messageId'', N (uid a)), (''error'', S (message perr))]])
                 \<and> messageId r = uid a \<and> body r = [] \<and> bodyHtml r = []
                 \<and> hasAttachments r = Some False))"
proof (intro conjI allI impI)
  have "\<forall>m \<in> set limited. \<exists>r. fst (processMessage env m) = Inr (Some r)"
    using wf processMessage_readable by fastforce
  from all_kept [where f = "\<lambda>m. fst (processMessage env m)" and ms = limited, OF this]
  have k: "first_rejection (map fst (map (processMessage env) limited)) = None"
    "length (List.map_filter (\<lambda>r. case r of Inl _ \<Rightarrow> None | Inr v \<Rightarrow> v)
         (map fst (map (processMessage env) limited))) = length limited"
    "\<forall>i < length limited. fst (processMessage env (limited ! i)) =
         Inr (Some (List.map_filter (\<lambda>r. case r of Inl _ \<Rightarrow> None | Inr v \<Rightarrow> v)
         (map fst (map (processMessage env) limited)) ! i))"
    by (simp_all add: comp_def)
  have "fst (fetchEmails env tok addr lim st) =
        Inr (List.map_filter (\<lambda>r. case r of Inl _ \<Rightarrow> None | Inr v \<Rightarrow> v)
         (map fst (map (processMessage env) limited)))"
    using c b s e k(1) by (simp add: emit_simps fetchEmails_def Let_def lm)
  with k(2,3)
  show "\<exists>rs. fst (fetchEmails env tok addr lim st) = Inr rs
            \<and> length rs = length limited
            \<and> (\<forall>i < length limited. fst (processMessage env (limited ! i)) = Inr (Some (rs ! i)))"
    by blast
next
  fix m :: message and ps a al perr
  assume "parts m = Some ps \<and> attributes m = Some a
            \<and> find (\<lambda>p. which p = []) ps = Some al \<and> body_truthy (part_body al)
            \<and> simpleParser env (part_body al) = Inl perr"
  then show "\<exists>r. processMessage env m =
                   (Inr (Some r),
                    [Log Warn ''Failed to parse email body''
                       [(''messageId'', N (uid a)), (''error'', S (message perr))]])
                 \<and> messageId r = uid a \<and> body r = [] \<and> bodyHtml r = []
                 \<and> hasAttachments r = Some False"
    using parse_failure_record by blast
qed

theorem body_parse_failure_keeps_message_witness:
  "length (slice0 sample_messages 50) = 3
   \<and> simpleParser sample_env (Raw ''bad'') = Inl (Error ''Unexpected end of input'')
   \<and> (\<exists>rs. fst (fetchEmails sample_env (Str ''at1'') ''a@x.com'' None sample_state) = Inr rs
          \<and> length rs = 3)
   \<and> (\<exists>r. processMessage sample_env (sample_message 102 ''two'' ''bad'') =
            (Inr (Some r),
             [Log Warn ''Failed to parse email body''
                [(''messageId'', N 102), (''error'', S ''Unexpected end of input'')]])
          \<and> messageId r = 102 \<and> body r = [] \<and> bodyHtml r = [] \<and> hasAttachments r = Some False)"
proof -
  have c: "imapConnect sample_env
             (imap_config_of sample_env ''a@x.com'' (buildXOAuth2Token ''a@x.com'' (Str ''at1''))) =
           Inr sample_conn"
    by (simp add: sample_env_def)
  have b: "openBox sample_conn ''INBOX'' = None"
    and s: "conn_search sample_conn [''ALL''] fetchOptions = Inr sample_messages"
    and e: "end_conn sample_conn = None"
    by (simp_all add: sample_conn_def)
  have lm: "slice0 sample_messages 50 =
            slice0 sample_messages (case None of None \<Rightarrow> 50 | Some l \<Rightarrow> l)"
    by simp
  have len: "length (slice0 sample_messages 50) = 3"
    by (simp add: slice0_def sample_messages_def)
  have wf: "\<forall>m \<in> set (slice0 sample_messages 50). parts m \<noteq> None \<and> attributes m \<noteq> None"
    by (simp add: slice0_def sample_messages_def sample_message_def)
  have bad: "simpleParser sample_env (Raw ''bad'') = Inl (Error ''Unexpected end of input'')"
    by (simp add: sample_env_def sample_parser_def)
  have pm: "parts (sample_message 102 ''two'' ''bad'') =
              Some [\<lparr>which = ''HEADER'',
                     part_body = Headers \<lparr>hdr_from = Some [''b@y.org''],
                                          hdr_subject = Some [''two''], hdr_date = None\<rparr>\<rparr>,
                    \<lparr>which = [], part_body = Raw ''bad''\<rparr>]
            \<and> attributes (sample_message 102 ''two'' ''bad'') = Some \<lparr>uid = 102\<rparr>
            \<and> find (\<lambda>p. which p = [])
                 [\<lparr>which = ''HEADER'',
                   part_body = Headers \<lparr>hdr_from = Some [''b@y.org''],
                                        hdr_subject = Some [''two''], hdr_date = None\<rparr>\<rparr>,
                  \<lparr>which = [], part_body = Raw ''bad''\<rparr>] =
                 Some \<lparr>which = [], part_body = Raw ''bad''\<rparr>
            \<and> body_truthy (part_body \<lparr>which = [], part_body = Raw ''bad''\<rparr>)
            \<and> simpleParser sample_env (part_body \<lparr>which = [], part_body = Raw ''bad''\<rparr>) =
                 Inl (Error ''Unexpected end of input'')"
    by (simp add: sample_message_def sample_env_def sample_parser_def)
  note k = body_parse_failure_keeps_message [OF c b s e lm wf, of sample_state]
  have batch: "\<exists>rs. fst (fetchEmails sample_env (Str ''at1'') ''a@x.com'' None sample_state) = Inr rs
          \<and> length rs = 3"
    using k [THEN conjunct1] len by auto
  have single: "\<exists>r. processMessage sample_env (sample_message 102 ''two'' ''bad'') =
            (Inr (Some r),
             [Log Warn ''Failed to parse email body''
                [(''messageId'', N 102), (''error'', S ''Unexpected end of input'')]])
          \<and> messageId r = 102 \<and> body r = [] \<and> bodyHtml r = [] \<and> hasAttachments r = Some False"
    using k [THEN conjunct2, rule_format, OF pm] by simp
  from len bad batch single show ?thesis
    by (intro conjI)
qed

text \<open>
  C2, as stated, fails on the sample mailbox: the parse of the second of three
  messages fails, and three records are returned.
\<close>

theorem body_parse_failure_drops_message_counterexample:
  "simpleParser sample_env (part_body \<lparr>which = [], part_body = Raw ''bad''\<rparr>) =
     Inl (Error ''Unexpected end of input'')
   \<and> conn_search sample_conn [''ALL''] fetchOptions =
       Inr [sample_message 101 ''one'' ''first'', sample_message 102 ''two'' ''bad'',
            sample_message 103 ''three'' ''third'']
   \<and> fst (fetchEmails sample_env (Str ''at1'') ''a@x.com'' None sample_state) =
       Inr [\<lparr>messageId = 101, from_addr = ''b@y.org'', subject = ''one'', date = Now,
             body = ''first'', bodyHtml = [], hasAttachments = Some False\<rparr>,
            \<lparr>messageId = 102, from_addr = ''b@y.org'', subject = ''two'', date = Now,
             body = [], bodyHtml = [], hasAttachments = Some False\<rparr>,
            \<lparr>messageId = 103, from_addr = ''b@y.org'', subject = ''three'', date = Now,
             body = ''third'', bodyHtml = [], hasAttachments = Some False\<rparr>]"
  by (simp add: sample_fetch [unfolded sample_records_def] sample_env_def sample_parser_def
        sample_conn_def sample_messages_def)

section \<open>Cache merge\<close>

lemma findOrCreate_present:
  assumes "rows_for owner (messageId e) st \<noteq> []"
  shows "emailTable (snd (Email_findOrCreate env owner e st)) = emailTable st"
proof -
  from assms obtain r where
    "find (\<lambda>r. userId r = owner \<and> messageId r = messageId e) (emailTable st) = Some r"
    by (rule find_key_Some)
  then show ?thesis
    by (simp add: emit_simps Email_findOrCreate_def Let_def split: option.splits)
qed

lemma save_present:
  assumes "\<And>h ev. dbFault env h ev = None" and "rows_for owner (messageId e) st \<noteq> []"
  shows "saveEmailsToDatabase env [e] owner st =
           emit (Log Info ''Saved emails to database''
                   [(''userId'', N owner), (''total'', N 1), (''saved'', N 0), (''skipped'', N 1)])
             (emit (EmailFindOrCreate owner (messageId e)) st)"
proof -
  from assms(2) obtain r where
    "find (\<lambda>r. userId r = owner \<and> messageId r = messageId e) (emailTable st) = Some r"
    by (rule find_key_Some)
  with assms(1) show ?thesis
    by (simp add: emit_simps saveEmailsToDatabase_def Email_findOrCreate_def Let_def)
qed

lemma save_absent:
  assumes "\<And>h ev. dbFault env h ev = None" and "rows_for owner (messageId e) st = []"
  shows "saveEmailsToDatabase env [e] owner st =
           emit (Log Info ''Saved emails to database''
                   [(''userId'', N owner), (''total'', N 1), (''saved'', N 1), (''skipped'', N 0)])
             (emit (EmailFindOrCreate owner (messageId e))
                (st\<lparr>emailTable := emailTable st @ [new_row e owner]\<rparr>))"
proof -
  from assms(2)
  have "find (\<lambda>r. userId r = owner \<and> messageId r = messageId e) (emailTable st) = None"
    by (simp add: find_key_None)
  with assms(1) show ?thesis
    by (simp add: emit_simps saveEmailsToDatabase_def Email_findOrCreate_def Let_def)
qed

text \<open>One find-or-create keeps the table free of duplicate keys.\<close>

lemma findOrCreate_unique:
  assumes "\<forall>o' m. length (rows_for o' m st) \<le> 1"
  shows "\<forall>o' m. length (rows_for o' m (snd (Email_findOrCreate env owner e st))) \<le> 1"
proof (cases "rows_for owner (messageId e) st = []")
  case True
  then have f: "find (\<lambda>r. userId r = owner \<and> messageId r = messageId e) (emailTable st) = None"
    by (simp add: find_key_None)
  show ?thesis
  proof (cases "dbFault env (trace st) (EmailFindOrCreate owner (messageId e))")
    case None
    show ?thesis
    proof (intro allI)
      fix o' m
      show "length (rows_for o' m (snd (Email_findOrCreate env owner e st))) \<le> 1"
      proof (cases "o' = owner \<and> m = messageId e")
        case True
        with \<open>rows_for owner (messageId e) st = []\<close> f None show ?thesis
          by (simp add: emit_simps new_row_key Email_findOrCreate_def Let_def rows_for_def)
      next
        case False
        with f None assms [rule_format, of o' m] show ?thesis
          by (auto simp add: emit_simps new_row_key Email_findOrCreate_def Let_def rows_for_def)
      qed
    qed
  next
    case (Some err)
    with assms show ?thesis
      by (simp add: emit_simps Email_findOrCreate_def Let_def rows_for_def)
  qed
next
  case False
  from findOrCreate_present [OF False] assms show ?thesis
    by (simp add: rows_for_def)
qed

lemma save_loop_unique:
  "\<forall>o' m. length (rows_for o' m st) \<le> 1 \<Longrightarrow>
   \<forall>o' m. length (rows_for o' m (snd (save_loop env es owner counts st))) \<le> 1"
proof (induction es arbitrary: counts st)
  case Nil
  then show ?case by simp
next
  case (Cons e es)
  obtain savedCount skippedCount where c: "counts = (savedCount, skippedCount)"
    by (cases counts)
  obtain r st1 where s: "Email_findOrCreate env owner e st = (r, st1)"
    by (cases "Email_findOrCreate env owner e st")
  from findOrCreate_unique [OF Cons.prems, of env owner e] s
  have u: "\<forall>o' m. length (rows_for o' m st1) \<le> 1"
    by simp
  show ?case
  proof (cases r)
    case (Inl err)
    with c s u show ?thesis by simp
  next
    case (Inr p)
    then obtain inst created where "r = Inr (inst, created)"
      by (cases p) auto
    with c s Cons.IH [OF u] show ?thesis by simp
  qed
qed

lemma saveEmails_table:
  "emailTable (saveEmailsToDatabase env es owner st) =
     emailTable (snd (save_loop env es owner (0, 0) st))"
  by (simp add: emit_simps saveEmailsToDatabase_def split: prod.splits sum.splits)

text \<open>
  C1.  When the database accepts its calls and the key \<open>(owner, messageId e)\<close> is not
  stored yet, merging \<open>e\<close> logs \<open>saved = 1, skipped = 0\<close> and leaves exactly one row under
  the key; merging it again logs \<open>saved = 0, skipped = 1\<close> and leaves the table as it
  was.  Whatever the database does, merging a record whose key is stored leaves the
  table unchanged, and a merge of any batch into a table with at most one row per key
  gives such a table again.
\<close>

theorem merge_same_record_twice:
  "((\<forall>h ev. dbFault env h ev = None) \<and> rows_for owner (messageId e) st = [] \<longrightarrow>
      last (trace (saveEmailsToDatabase env [e] owner st)) =
        Log Info ''Saved emails to database''
          [(''userId'', N owner), (''total'', N 1), (''saved'', N 1), (''skipped'', N 0)]
    \<and> last (trace (saveEmailsToDatabase env [e] owner (saveEmailsToDatabase env [e] owner st))) =
        Log Info ''Saved emails to database''
          [(''userId'', N owner), (''total'', N 1), (''saved'', N 0), (''skipped'', N 1)]
    \<and> rows_for owner (messageId e) (saveEmailsToDatabase env [e] owner st) = [new_row e owner]
    \<and> emailTable (saveEmailsToDatabase env [e] owner (saveEmailsToDatabase env [e] owner st)) =
        emailTable (saveEmailsToDatabase env [e] owner st))
   \<and> (rows_for owner (messageId e) st \<noteq> [] \<longrightarrow>
        emailTable (saveEmailsToDatabase env [e] owner st) = emailTable st)
   \<and> ((\<forall>o' m. length (rows_for o' m st) \<le> 1) \<longrightarrow>
        (\<forall>o' m. length (rows_for o' m (saveEmailsToDatabase env es owner st)) \<le> 1))"
proof (intro conjI impI)
  assume a: "(\<forall>h ev. dbFault env h ev = None) \<and> rows_for owner (messageId e) st = []"
  then have nf: "\<And>h ev. dbFault env h ev = None"
    and fresh: "rows_for owner (messageId e) st = []"
    by auto
  note st1 = save_absent [OF nf fresh]
  show "last (trace (saveEmailsToDatabase env [e] owner st)) =
        Log Info ''Saved emails to database''
          [(''userId'', N owner), (''total'', N 1), (''saved'', N 1), (''skipped'', N 0)]"
    by (simp add: st1 emit_simps)
  show r1: "rows_for owner (messageId e) (saveEmailsToDatabase env [e] owner st) =
        [new_row e owner]"
    using fresh by (simp add: st1 rows_for_def emit_simps new_row_key)
  then have "rows_for owner (messageId e) (saveEmailsToDatabase env [e] owner st) \<noteq> []"
    by simp
  note st2 = save_present [OF nf this]
  show "last (trace (saveEmailsToDatabase env [e] owner
                       (saveEmailsToDatabase env [e] owner st))) =
        Log Info ''Saved emails to database''
          [(''userId'', N owner), (''total'', N 1), (''saved'', N 0), (''skipped'', N 1)]"
    by (subst st2) (simp add: emit_simps)
  show "emailTable (saveEmailsToDatabase env [e] owner (saveEmailsToDatabase env [e] owner st)) =
        emailTable (saveEmailsToDatabase env [e] owner st)"
    by (subst st2) (simp add: emit_simps)
next
  assume "rows_for owner (messageId e) st \<noteq> []"
  from findOrCreate_present [OF this, of env]
  show "emailTable (saveEmailsToDatabase env [e] owner st) = emailTable st"
    by (auto simp add: emit_simps saveEmails_table split: prod.splits sum.splits)
next
  assume "\<forall>o' m. length (rows_for o' m st) \<le> 1"
  from save_loop_unique [OF this, of env es owner "(0, 0)"]
  show "\<forall>o' m. length (rows_for o' m (saveEmailsToDatabase env es owner st)) \<le> 1"
    by (simp add: emit_simps rows_for_def saveEmails_table)
qed

theorem merge_same_record_twice_witness:
  "last (trace (saveEmailsToDatabase sample_env [sample_email] 1 sample_state)) =
     Log Info ''Saved emails to database''
       [(''userId'', N 1), (''total'', N 1), (''saved'', N 1), (''skipped'', N 0)]
   \<and> last (trace (saveEmailsToDatabase sample_env [sample_email] 1
                    (saveEmailsToDatabase sample_env [sample_email] 1 sample_state))) =
     Log Info ''Saved emails to database''
       [(''userId'', N 1), (''total'', N 1), (''saved'', N 0), (''skipped'', N 1)]
   \<and> rows_for 1 101 (saveEmailsToDatabase sample_env [sample_email] 1 sample_state) =
     [new_row sample_email 1]
   \<and> emailTable (saveEmailsToDatabase sample_env [sample_email] 1
                   (saveEmailsToDatabase sample_env [sample_email] 1 sample_state)) =
     [new_row sample_email 1]"
proof -
  have hyp: "(\<forall>h ev. dbFault sample_env h ev = None)
             \<and> rows_for 1 (messageId sample_email) sample_state = []"
    by (simp add: sample_env_def rows_for_def sample_state_def)
  have mid: "messageId sample_email = 101"
    by (simp add: sample_email_def)
  note m = merge_same_record_twice
    [of sample_env 1 sample_email sample_state "[]", THEN conjunct1, rule_format, OF hyp]
  have tbl: "emailTable (saveEmailsToDatabase sample_env [sample_email] 1 sample_state) =
             [new_row sample_email 1]"
    using save_absent [of sample_env 1 sample_email sample_state] hyp
    by (simp add: sample_state_def emit_simps)
  from m tbl show ?thesis
    by (simp add: mid)
qed

section \<open>Synchronisation\<close>

text \<open>
  C8.  For an address (a non-empty string; the guard at the head of
  \<^verbatim>\<open>fetchUserEmails\<close> rejects a missing one) whose lookup finds no account, the
  synchronisation fails with \<^verbatim>\<open>User not found\<close>, and the lookup is the only call
  made: no token refresh, no connection to the mail server.
\<close>

theorem sync_unknown_account:
  assumes "emailAddress \<noteq> []"
    and "fst (User_findOne env emailAddress st) = Inr None"
  shows "fetchUserEmails env emailAddress st =
           (Inl (Error ''User not found''), emit (UserFindOne emailAddress) st)"
proof -
  have "snd (User_findOne env emailAddress st) = emit (UserFindOne emailAddress) st"
    by (simp add: emit_simps User_findOne_def split: option.splits)
  with assms(2) have "User_findOne env emailAddress st =
      (Inr None, emit (UserFindOne emailAddress) st)"
    by (simp add: prod_eq_iff)
  with assms(1) show ?thesis
    by (simp add: emit_simps fetchUserEmails_def)
qed

theorem sync_unknown_account_witness:
  "fetchUserEmails sample_env ''nobody@x.com'' sample_state =
     (Inl (Error ''User not found''), emit (UserFindOne ''nobody@x.com'') sample_state)
   \<and> trace (snd (fetchUserEmails sample_env ''nobody@x.com'' sample_state)) =
     [UserFindOne ''nobody@x.com'']"
proof -
  have ne: "''nobody@x.com'' \<noteq> []"
    by simp
  have none: "fst (User_findOne sample_env ''nobody@x.com'' sample_state) = Inr None"
    by (simp add: emit_simps User_findOne_def sample_env_def sample_state_def sample_user_def)
  from sync_unknown_account [OF ne none] show ?thesis
    by (simp add: sample_state_def emit_simps)
qed

text \<open>
  C3.  When the account is found, the token refresh succeeds and the fetch returns the
  list \<open>fetched\<close>, the synchronisation returns \<open>fetched\<close>, whatever the database does
  during the merge; and if the merge loop stops on an error, the only trace of it is
  the error line appended to the log.
\<close>

theorem cache_write_failure_not_propagated:
  assumes "emailAddress \<noteq> []"
    and "User_findOne env emailAddress st = (Inr (Some usr), st1)"
    and "refreshAccessToken env usr st1 = (Inr tok, st2)"
    and "fetchEmails env tok emailAddress None
           (emit (Log Info ''Fetching emails from IMAP'' [(''email'', S emailAddress)]) st2) =
         (Inr fetched, st3)"
  shows "fst (fetchUserEmails env emailAddress st) = Inr fetched
       \<and> (\<forall>err st4.
            save_loop env fetched (user_id usr) (0, 0)
              (emit (Log Info ''Successfully fetched emails''
                       [(''email'', S emailAddress), (''count'', N (int (length fetched)))]) st3) =
            (Inl err, st4) \<longrightarrow>
            snd (fetchUserEmails env emailAddress st) =
              emit (Log Err ''Error saving emails to database''
                      [(''userId'', N (user_id usr)), (''error'', S (message err))]) st4)"
  using assms by (simp add: emit_simps fetchUserEmails_def saveEmailsToDatabase_def)

theorem cache_write_failure_not_propagated_witness:
  "fst (fetchUserEmails broken_cache_env ''a@x.com'' sample_state) = Inr sample_records
   \<and> last (trace (snd (fetchUserEmails broken_cache_env ''a@x.com'' sample_state))) =
       Log Err ''Error saving emails to database''
         [(''userId'', N 1), (''error'', S ''Lock wait timeout exceeded'')]
   \<and> emailTable (snd (fetchUserEmails broken_cache_env ''a@x.com'' sample_state)) = []"
proof -
  let ?E = broken_cache_env
  let ?st1 = "snd (User_findOne ?E ''a@x.com'' sample_state)"
  let ?st2 = "snd (refreshAccessToken ?E sample_user ?st1)"
  let ?st3 = "snd (fetchEmails ?E (Str ''at1'') ''a@x.com'' None
                 (emit (Log Info ''Fetching emails from IMAP'' [(''email'', S ''a@x.com'')]) ?st2))"
  let ?st3' = "emit (Log Info ''Successfully fetched emails''
                 [(''email'', S ''a@x.com''), (''count'', N (int (length sample_records)))]) ?st3"
  let ?st4 = "snd (save_loop ?E sample_records (user_id sample_user) (0, 0) ?st3')"
  have ne: "''a@x.com'' \<noteq> []" by simp
  have h1: "User_findOne ?E ''a@x.com'' sample_state = (Inr (Some sample_user), ?st1)"
    by (simp add: emit_simps prod_eq_iff User_findOne_def broken_cache_env_def sample_env_def
          sample_state_def sample_user_def)
  have h2: "refreshAccessToken ?E sample_user ?st1 = (Inr (Str ''at1''), ?st2)"
    by (simp add: emit_simps prod_eq_iff refreshAccessToken_def broken_cache_env_def sample_env_def
          sample_user_def Let_def)
  have h3: "fetchEmails ?E (Str ''at1'') ''a@x.com'' None
              (emit (Log Info ''Fetching emails from IMAP'' [(''email'', S ''a@x.com'')]) ?st2) =
            (Inr sample_records, ?st3)"
    by (simp add: prod_eq_iff sample_fetch broken_cache_env_def sample_env_def)
  have h4: "save_loop ?E sample_records (user_id sample_user) (0, 0) ?st3' =
            (Inl (Error ''Lock wait timeout exceeded''), ?st4)"
    by (simp add: emit_simps prod_eq_iff sample_records_def Email_findOrCreate_def
          broken_cache_env_def sample_env_def Let_def)
  have tbl: "emailTable ?st4 = []"
    by (simp add: emit_simps sample_records_def Email_findOrCreate_def broken_cache_env_def sample_env_def
          Let_def fetchEmails_frame refresh_frame User_findOne_def sample_state_def)
  note r = cache_write_failure_not_propagated [OF ne h1 h2 h3]
  from r [THEN conjunct1] r [THEN conjunct2, rule_format, OF h4] tbl
  show ?thesis
    by (simp add: sample_user_def emit_simps)
qed

section \<open>Reading the cache\<close>

lemma trim_blank:
  assumes "\<forall>c \<in> set s. is_space c"
  shows "trim s = []"
proof -
  have d: "dropWhile is_space s = []"
    using assms by simp
  show ?thesis
    unfolding trim_def d by simp
qed

lemma trim_not_blank:
  assumes "\<not> (\<forall>c \<in> set s. is_space c)"
  shows "trim s \<noteq> []"
proof -
  let ?xs = "dropWhile is_space s"
  from assms have ne: "?xs \<noteq> []"
    by (simp add: dropWhile_eq_Nil_conv)
  then have "\<not> is_space (hd ?xs)"
    by (rule hd_dropWhile)
  moreover from ne have "hd ?xs \<in> set (rev ?xs)"
    by simp
  ultimately have "dropWhile is_space (rev ?xs) \<noteq> []"
    by (auto simp add: dropWhile_eq_Nil_conv)
  then show ?thesis
    by (simp add: trim_def)
qed

lemma whereClause_blank:
  "whereClause s owner = UserIdIs owner \<longleftrightarrow> (\<forall>c \<in> set s. is_space c)"
proof (cases "\<forall>c \<in> set s. is_space c")
  case True
  then show ?thesis
    by (simp add: whereClause_def trim_blank)
next
  case False
  then have "s \<noteq> []" "trim s \<noteq> []"
    using trim_not_blank by auto
  with False show ?thesis
    by (simp add: whereClause_def)
qed

text \<open>What a run with a blank search does once the account is found.\<close>

lemma blank_run:
  assumes blank: "\<forall>c \<in> set (case so of None \<Rightarrow> [] | Some s \<Rightarrow> s). is_space c"
    and found: "fst (User_findOne env addr st) = Inr (Some usr)"
  shows "EmailCount (UserIdIs (user_id usr)) \<in>
           set (events_since st (snd (getStoredEmails env addr (options\<lparr>opt_search := so\<rparr>) st)))"
    and "fst (getStoredEmails env addr (options\<lparr>opt_search := so\<rparr>) st) = Inr res \<Longrightarrow>
           totalCount (pagination res) =
             length (filter (\<lambda>r. userId r = user_id usr) (emailTable st))
         \<and> (\<exists>rows.
               dbOrder env (case opt_sortBy options of None \<Rightarrow> ''date'' | Some b \<Rightarrow> b)
                 (toUpperCase (case opt_sortOrder options of None \<Rightarrow> ''DESC'' | Some d \<Rightarrow> d))
                 (filter (\<lambda>r. userId r = user_id usr) (emailTable st)) = Inr rows
             \<and> emails res =
                 take (nat (case opt_limit options of None \<Rightarrow> 20 | Some l \<Rightarrow> l))
                   (drop (nat (((case opt_page options of None \<Rightarrow> 1 | Some p \<Rightarrow> p) - 1)
                               * (case opt_limit options of None \<Rightarrow> 20 | Some l \<Rightarrow> l)))
                      rows))"
proof -
  let ?G = "getStoredEmails env addr (options\<lparr>opt_search := so\<rparr>) st"
  let ?w = "UserIdIs (user_id usr)"
  let ?page = "case opt_page options of None \<Rightarrow> 1 | Some p \<Rightarrow> p"
  let ?limit = "case opt_limit options of None \<Rightarrow> 20 | Some l \<Rightarrow> l"
  let ?sortBy = "case opt_sortBy options of None \<Rightarrow> ''date'' | Some b \<Rightarrow> b"
  let ?sortOrder = "case opt_sortOrder options of None \<Rightarrow> ''DESC'' | Some d \<Rightarrow> d"
  let ?own = "filter (\<lambda>r. userId r = user_id usr) (emailTable st)"
  let ?st1 = "emit (UserFindOne addr) st"
  let ?st2 = "emit (EmailCount ?w) ?st1"
  have w: "whereClause (case so of None \<Rightarrow> [] | Some s \<Rightarrow> s) (user_id usr) = ?w"
    using blank by (simp add: whereClause_blank)
  have u: "User_findOne env addr st = (Inr (Some usr), ?st1)"
    using found by (simp add: User_findOne_def prod_eq_iff split: option.splits)
  have ev: "eval_cond (dbLike env) ?w = (\<lambda>r. userId r = user_id usr)"
    by (rule ext) simp
  show "EmailCount ?w \<in> set (events_since st (snd ?G))"
  proof (cases "dbFault env (trace ?st1) (EmailCount ?w)")
    case (Some e)
    with u w show ?thesis
      by (simp add: getStoredEmails_def Let_def Email_count_def emit_simps events_since_def)
  next
    case None
    then have c: "Email_count env ?w ?st1 = (Inr (length ?own), ?st2)"
      by (simp add: Email_count_def emit_simps ev)
    obtain rf st3 where
      f: "Email_findAll env ?w ?sortBy (toUpperCase ?sortOrder) ?limit ((?page - 1) * ?limit) ?st2 =
            (rf, st3)"
      by (cases "Email_findAll env ?w ?sortBy (toUpperCase ?sortOrder) ?limit
                   ((?page - 1) * ?limit) ?st2")
    then have t3: "trace st3 = trace ?st2 @
        [EmailFindAll ?w ?sortBy (toUpperCase ?sortOrder) ?limit ((?page - 1) * ?limit)]"
      by (auto simp add: Email_findAll_def Let_def emit_simps
            split: option.splits if_splits sum.splits)
    show ?thesis
      using u w c f t3
      by (cases rf) (simp_all add: getStoredEmails_def Let_def emit_simps events_since_def)
  qed
  assume ok: "fst ?G = Inr res"
  show "totalCount (pagination res) = length ?own
         \<and> (\<exists>rows. dbOrder env ?sortBy (toUpperCase ?sortOrder) ?own = Inr rows
             \<and> emails res = take (nat ?limit) (drop (nat ((?page - 1) * ?limit)) rows))"
  proof (cases "dbFault env (trace ?st1) (EmailCount ?w)")
    case (Some e)
    with u w ok show ?thesis
      by (simp add: getStoredEmails_def Let_def Email_count_def)
  next
    case None
    then have c: "Email_count env ?w ?st1 = (Inr (length ?own), ?st2)"
      by (simp add: Email_count_def emit_simps ev)
    obtain rf st3 where
      f: "Email_findAll env ?w ?sortBy (toUpperCase ?sortOrder) ?limit ((?page - 1) * ?limit) ?st2 =
            (rf, st3)"
      by (cases "Email_findAll env ?w ?sortBy (toUpperCase ?sortOrder) ?limit
                   ((?page - 1) * ?limit) ?st2")
    show ?thesis
    proof (cases rf)
      case (Inl e)
      with u w c f ok show ?thesis
        by (simp add: getStoredEmails_def Let_def)
    next
      case (Inr found_rows)
      with u w c f ok have res: "emails res = found_rows" "totalCount (pagination res) = length ?own"
        by (auto simp add: getStoredEmails_def Let_def)
      from f Inr have "\<exists>rows. dbOrder env ?sortBy (toUpperCase ?sortOrder) ?own = Inr rows
             \<and> found_rows = take (nat ?limit) (drop (nat ((?page - 1) * ?limit)) rows)"
        by (auto simp add: Email_findAll_def Let_def emit_simps ev
              split: option.splits if_splits sum.splits)
      with res show ?thesis
        by simp
    qed
  qed
qed

text \<open>
  C10.  A search string that is empty or made of white space only gives the same
  result as no search option, and the two runs differ at most in the last log line.
  In both, once the account is found, the count issued to the database is the one
  under the owner's id alone, and a result returned holds as total the number of the
  owner's rows and as rows a page of the owner's rows, as the database orders them: the
  rows are filtered by the owner's id and by nothing else.
\<close>

theorem blank_search_is_no_search:
  assumes "\<forall>c \<in> set s. is_space c"
  shows "fst (getStoredEmails env addr (options\<lparr>opt_search := Some s\<rparr>) st) =
         fst (getStoredEmails env addr (options\<lparr>opt_search := None\<rparr>) st)
       \<and> whereClause s owner = UserIdIs owner
       \<and> whereClause [] owner = UserIdIs owner
       \<and> butlast (trace (snd (getStoredEmails env addr (options\<lparr>opt_search := Some s\<rparr>) st))) =
         butlast (trace (snd (getStoredEmails env addr (options\<lparr>opt_search := None\<rparr>) st)))
  \<and> (\<forall>so usr res.
        (so = Some s \<or> so = None) \<and> fst (User_findOne env addr st) = Inr (Some usr) \<longrightarrow>
        EmailCount (UserIdIs (user_id usr)) \<in>
          set (events_since st (snd (getStoredEmails env addr (options\<lparr>opt_search := so\<rparr>) st)))
      \<and> (fst (getStoredEmails env addr (options\<lparr>opt_search := so\<rparr>) st) = Inr res \<longrightarrow>
           totalCount (pagination res) =
             length (filter (\<lambda>r. userId r = user_id usr) (emailTable st))
         \<and> (\<exists>rows.
               dbOrder env (case opt_sortBy options of None \<Rightarrow> ''date'' | Some b \<Rightarrow> b)
                 (toUpperCase (case opt_sortOrder options of None \<Rightarrow> ''DESC'' | Some d \<Rightarrow> d))
                 (filter (\<lambda>r. userId r = user_id usr) (emailTable st)) = Inr rows
             \<and> emails res =
                 take (nat (case opt_limit options of None \<Rightarrow> 20 | Some l \<Rightarrow> l))
                   (drop (nat (((case opt_page options of None \<Rightarrow> 1 | Some p \<Rightarrow> p) - 1)
                               * (case opt_limit options of None \<Rightarrow> 20 | Some l \<Rightarrow> l)))
                      rows))))"
proof -
  have w: "whereClause s owner = UserIdIs owner" "whereClause [] owner = UserIdIs owner" for owner
    using assms by (simp_all add: whereClause_blank)
  obtain r st1 where u: "User_findOne env addr st = (r, st1)"
    by (cases "User_findOne env addr st")
  have same: "fst (getStoredEmails env addr (options\<lparr>opt_search := Some s\<rparr>) st) =
        fst (getStoredEmails env addr (options\<lparr>opt_search := None\<rparr>) st)
      \<and> butlast (trace (snd (getStoredEmails env addr (options\<lparr>opt_search := Some s\<rparr>) st))) =
        butlast (trace (snd (getStoredEmails env addr (options\<lparr>opt_search := None\<rparr>) st)))"
  proof (cases r)
    case (Inl e)
    with u show ?thesis
      by (simp add: emit_simps getStoredEmails_def)
  next
    case (Inr found)
    show ?thesis
    proof (cases found)
      case None
      with u Inr show ?thesis
        by (simp add: emit_simps getStoredEmails_def)
    next
      case (Some usr)
      let ?w = "UserIdIs (user_id usr)"
      let ?page = "case opt_page options of None \<Rightarrow> 1 | Some p \<Rightarrow> p"
      let ?limit = "case opt_limit options of None \<Rightarrow> 20 | Some l \<Rightarrow> l"
      let ?sortBy = "case opt_sortBy options of None \<Rightarrow> ''date'' | Some b \<Rightarrow> b"
      let ?sortOrder = "case opt_sortOrder options of None \<Rightarrow> ''DESC'' | Some d \<Rightarrow> d"
      obtain rc st2 where c: "Email_count env ?w st1 = (rc, st2)"
        by (cases "Email_count env ?w st1")
      show ?thesis
      proof (cases rc)
        case (Inl e)
        with u Inr Some c show ?thesis
          by (simp add: emit_simps getStoredEmails_def Let_def w)
      next
        case (Inr cnt)
        note rc = this
        obtain rf st3 where
          f: "Email_findAll env ?w ?sortBy (toUpperCase ?sortOrder) ?limit ((?page - 1) * ?limit) st2 =
                (rf, st3)"
          by (cases "Email_findAll env ?w ?sortBy (toUpperCase ?sortOrder) ?limit
                       ((?page - 1) * ?limit) st2")
        show ?thesis
        proof (cases rf)
          case (Inl e)
          with u \<open>r = Inr found\<close> Some c rc f show ?thesis
            by (simp add: emit_simps getStoredEmails_def Let_def w)
        next
          case (Inr rows)
          with u \<open>r = Inr found\<close> Some c rc f show ?thesis
            by (simp add: emit_simps getStoredEmails_def Let_def w)
        qed
      qed
    qed
  qed
  have run: "EmailCount (UserIdIs (user_id usr)) \<in>
          set (events_since st (snd (getStoredEmails env addr (options\<lparr>opt_search := so\<rparr>) st)))
      \<and> (fst (getStoredEmails env addr (options\<lparr>opt_search := so\<rparr>) st) = Inr res \<longrightarrow>
           totalCount (pagination res) =
             length (filter (\<lambda>r. userId r = user_id usr) (emailTable st))
         \<and> (\<exists>rows.
               dbOrder env (case opt_sortBy options of None \<Rightarrow> ''date'' | Some b \<Rightarrow> b)
                 (toUpperCase (case opt_sortOrder options of None \<Rightarrow> ''DESC'' | Some d \<Rightarrow> d))
                 (filter (\<lambda>r. userId r = user_id usr) (emailTable st)) = Inr rows
             \<and> emails res =
                 take (nat (case opt_limit options of None \<Rightarrow> 20 | Some l \<Rightarrow> l))
                   (drop (nat (((case opt_page options of None \<Rightarrow> 1 | Some p \<Rightarrow> p) - 1)
                               * (case opt_limit options of None \<Rightarrow> 20 | Some l \<Rightarrow> l)))
                      rows)))"
    if so: "so = Some s \<or> so = None"
      and found: "fst (User_findOne env addr st) = Inr (Some usr)"
    for so usr res
  proof -
    from so assms have "\<forall>c \<in> set (case so of None \<Rightarrow> [] | Some s \<Rightarrow> s). is_space c"
      by auto
    from blank_run [OF this found, of options] show ?thesis
      by blast
  qed
  from same w run show ?thesis
    by blast
qed

theorem blank_search_is_no_search_witness:
  "is_space (CHR '' '')
   \<and> fst (getStoredEmails sample_env ''a@x.com''
            \<lparr>opt_page = None, opt_limit = None, opt_search = Some ''  '', opt_sortBy = None,
             opt_sortOrder = None\<rparr> two_owner_state) =
     Inr \<lparr>emails = [new_row sample_email 1],
          pagination = \<lparr>currentPage = 1, totalPages = Num 1, totalCount = 1, page_limit = 20,
                        hasNextPage = False, hasPrevPage = False\<rparr>\<rparr>
   \<and> fst (getStoredEmails sample_env ''a@x.com''
            \<lparr>opt_page = None, opt_limit = None, opt_search = None, opt_sortBy = None,
             opt_sortOrder = None\<rparr> two_owner_state) =
     Inr \<lparr>emails = [new_row sample_email 1],
          pagination = \<lparr>currentPage = 1, totalPages = Num 1, totalCount = 1, page_limit = 20,
                        hasNextPage = False, hasPrevPage = False\<rparr>\<rparr>
   \<and> length (filter (\<lambda>r. userId r = 1) (emailTable two_owner_state)) = 1
   \<and> length (emailTable two_owner_state) = 2
   \<and> EmailCount (UserIdIs 1) \<in>
       set (events_since two_owner_state
              (snd (getStoredEmails sample_env ''a@x.com''
                      \<lparr>opt_page = None, opt_limit = None, opt_search = Some ''  '',
                       opt_sortBy = None, opt_sortOrder = None\<rparr> two_owner_state)))"
proof -
  let ?opts = "\<lparr>opt_page = None, opt_limit = None, opt_search = None, opt_sortBy = None,
               opt_sortOrder = None\<rparr>"
  have blank: "\<forall>c \<in> set ''  ''. is_space c"
    by (simp add: is_space_def)
  have found: "fst (User_findOne sample_env ''a@x.com'' two_owner_state) = Inr (Some sample_user)"
    by (simp add: User_findOne_def sample_env_def two_owner_state_def sample_state_def
          sample_user_def)
  have none: "fst (getStoredEmails sample_env ''a@x.com'' (?opts\<lparr>opt_search := None\<rparr>)
                     two_owner_state) =
     Inr \<lparr>emails = [new_row sample_email 1],
          pagination = \<lparr>currentPage = 1, totalPages = Num 1, totalCount = 1, page_limit = 20,
                        hasNextPage = False, hasPrevPage = False\<rparr>\<rparr>"
    by (simp add: getStoredEmails_def User_findOne_def Email_count_def Email_findAll_def
          sample_env_def two_owner_state_def sample_state_def sample_user_def new_row_def
          sample_email_def whereClause_def ceil_div_def Let_def emit_simps)
  note t = blank_search_is_no_search
    [OF blank, of sample_env "''a@x.com''" ?opts two_owner_state 1]
  note same = t [THEN conjunct1]
  note run = t [THEN conjunct2, THEN conjunct2, THEN conjunct2, THEN conjunct2, rule_format,
    of "Some ''  ''" sample_user]
  have so: "(Some ''  '' = Some ''  '' \<or> Some ''  '' = None)
            \<and> fst (User_findOne sample_env ''a@x.com'' two_owner_state) = Inr (Some sample_user)"
    using found by simp
  have ev: "EmailCount (UserIdIs (user_id sample_user)) \<in>
       set (events_since two_owner_state
              (snd (getStoredEmails sample_env ''a@x.com'' (?opts\<lparr>opt_search := Some ''  ''\<rparr>)
                      two_owner_state)))"
    by (rule run [OF so, THEN conjunct1])
  have own: "length (filter (\<lambda>r. userId r = 1) (emailTable two_owner_state)) = 1"
    and all: "length (emailTable two_owner_state) = 2"
    by (simp_all add: two_owner_state_def new_row_def)
  from same none ev own all show ?thesis
    by (simp add: is_space_def sample_user_def)
qed

end
